theory Spec2Isabelle
  imports Complex_Main "HOL-Library.Char_ord" "HOL-Library.List_Lexorder" "HOL-Library.AList"
begin

section \<open>Validation utilities: ISBN checksums\<close>

text \<open>
  The validation result of the source, \<^verbatim>\<open>{ isValid: boolean, errors: string[] }\<close>.
  The message texts of the source are Korean literals; the model carries an ASCII gloss
  of each, since no property below depends on the wording.
\<close>

record ValidationResult =
  isValid :: bool
  errors :: "string list"

text \<open>\<^verbatim>\<open>\d\<close> of a JavaScript regular expression: the ten ASCII digits.\<close>

definition is_digit :: "char \<Rightarrow> bool" where
  "is_digit c = (CHR ''0'' \<le> c \<and> c \<le> CHR ''9'')"

text \<open>\<^verbatim>\<open>Number(c)\<close> on a one-character string holding a digit.\<close>

definition Number_digit :: "char \<Rightarrow> nat" where
  "Number_digit c = of_char c - 48"

text \<open>\<^verbatim>\<open>String(n)\<close> on a non-negative integer: its decimal numeral.\<close>

fun String_nat :: "nat \<Rightarrow> string" where
  "String_nat n =
     (if n < 10 then [char_of (48 + n)]
      else String_nat (n div 10) @ [char_of (48 + n mod 10)])"

declare String_nat.simps [simp del]

text \<open>\<^verbatim>\<open>VALIDATION_RULES.ISBN_10_PATTERN = /^\d{9}[\dX]$/\<close> and
  \<^verbatim>\<open>ISBN_13_PATTERN = /^\d{13}$/\<close>, as \<^verbatim>\<open>RegExp.test\<close> decides them.\<close>

definition ISBN_10_PATTERN_test :: "string \<Rightarrow> bool" where
  "ISBN_10_PATTERN_test s =
     (length s = 10 \<and> list_all is_digit (take 9 s) \<and> (is_digit (s ! 9) \<or> s ! 9 = CHR ''X''))"

definition ISBN_13_PATTERN_test :: "string \<Rightarrow> bool" where
  "ISBN_13_PATTERN_test s = (length s = 13 \<and> list_all is_digit s)"

text \<open>
  \<^verbatim>\<open>validateIsbn10\<close>. The parameter is typed \<^verbatim>\<open>string\<close>, so of the guard
  \<^verbatim>\<open>!isbn || typeof isbn !== 'string'\<close> only the empty string remains. The loop
  \<^verbatim>\<open>for (i = 0; i < 9; i++) sum += digits[i] * (10 - i)\<close> is the fold over the indices.
\<close>

definition validateIsbn10 :: "string \<Rightarrow> ValidationResult" where
  "validateIsbn10 isbn =
     (if isbn = [] then
        \<lparr>isValid = False, errors = [''ISBN-10 must be a string'']\<rparr>
      else if \<not> ISBN_10_PATTERN_test isbn then
        \<lparr>isValid = False, errors = [''ISBN-10 must be 10 digits, the last a digit or X'']\<rparr>
      else
        let digits = map Number_digit (take 9 isbn);
            checkDigit = [isbn ! 9];
            sum = fold (\<lambda>i sum. sum + digits ! i * (10 - i)) [0..<9] 0;
            remainder = sum mod 11;
            expectedCheckDigit =
              (if remainder = 0 then ''0''
               else if remainder = 1 then ''X''
               else String_nat (11 - remainder))
        in if checkDigit \<noteq> expectedCheckDigit then
             \<lparr>isValid = False, errors = [''invalid ISBN-10 checksum'']\<rparr>
           else \<lparr>isValid = True, errors = []\<rparr>)"

text \<open>\<^verbatim>\<open>validateIsbn13\<close>: weights 1 and 3 alternate over the first twelve digits.\<close>

definition validateIsbn13 :: "string \<Rightarrow> ValidationResult" where
  "validateIsbn13 isbn =
     (if isbn = [] then
        \<lparr>isValid = False, errors = [''ISBN-13 must be a string'']\<rparr>
      else if \<not> ISBN_13_PATTERN_test isbn then
        \<lparr>isValid = False, errors = [''ISBN-13 must be 13 digits'']\<rparr>
      else
        let digits = map Number_digit isbn;
            sum = fold (\<lambda>i sum. sum + digits ! i * (if i mod 2 = 0 then 1 else 3)) [0..<12] 0;
            checkDigit = (10 - (sum mod 10)) mod 10
        in if digits ! 12 \<noteq> checkDigit then
             \<lparr>isValid = False, errors = [''invalid ISBN-13 checksum'']\<rparr>
           else \<lparr>isValid = True, errors = []\<rparr>)"

subsection \<open>The checksums as the specification words them\<close>

text \<open>
  ISBN-10: the string matches \<^verbatim>\<open>^\d{9}[\dX]$\<close>; digit \<open>i\<close> (from 0) is weighted
  \<open>10 - i\<close>; the check character is \<open>0\<close> for remainder 0, \<open>X\<close> for remainder 1 and the
  digit \<open>11 - remainder\<close> otherwise.
\<close>

definition isbn10_weights :: "nat list" where
  "isbn10_weights = [10, 9, 8, 7, 6, 5, 4, 3, 2]"

definition isbn10_remainder :: "string \<Rightarrow> nat" where
  "isbn10_remainder s =
     sum_list (map2 (\<lambda>c w. Number_digit c * w) (take 9 s) isbn10_weights) mod 11"

definition isbn10_check_char :: "nat \<Rightarrow> char" where
  "isbn10_check_char r =
     (if r = 0 then CHR ''0'' else if r = 1 then CHR ''X'' else char_of (48 + (11 - r)))"

definition isbn10_spec :: "string \<Rightarrow> bool" where
  "isbn10_spec s =
     (ISBN_10_PATTERN_test s \<and> s ! 9 = isbn10_check_char (isbn10_remainder s))"

text \<open>
  ISBN-13: the string matches \<^verbatim>\<open>^\d{13}$\<close> and the thirteen digits, weighted
  1, 3, 1, 3, ..., sum to a multiple of 10.
\<close>

definition isbn13_weights :: "nat list" where
  "isbn13_weights = [1, 3, 1, 3, 1, 3, 1, 3, 1, 3, 1, 3, 1]"

definition isbn13_spec :: "string \<Rightarrow> bool" where
  "isbn13_spec s =
     (ISBN_13_PATTERN_test s \<and>
      sum_list (map2 (\<lambda>c w. Number_digit c * w) s isbn13_weights) mod 10 = 0)"


section \<open>Errors\<close>

text \<open>
  \<^verbatim>\<open>enum ErrorCode\<close> of \<^verbatim>\<open>types.ts\<close> with its numeric values, and the values the
  pipeline throws:
  \<^item> an Axios error, with the optional response (the HTTP status, and the upstream error
    body when the response data has an \<^verbatim>\<open>errorCode\<close>), the optional transport code, the
    message, and whether the error object refers back to itself through its request and
    response objects, as the errors of the HTTP adapter of the runtime do;
  \<^item> a \<^verbatim>\<open>StandardError\<close> object (\<^verbatim>\<open>code, message, originalError, timestamp\<close>; the
    timestamp is the instant in epoch milliseconds that \<^verbatim>\<open>toISOString\<close> prints), whose
    \<^verbatim>\<open>originalError\<close> is absent, an error, or the data of a response;
  \<^item> a plain \<^verbatim>\<open>Error\<close>;
  \<^item> the \<^verbatim>\<open>RangeError\<close> of the runtime for a recursion that exhausts the stack.
\<close>

datatype ErrorCode =
  INVALID_TTB_KEY | MISSING_REQUIRED_PARAM | INVALID_PARAM_VALUE | SYSTEM_ERROR | DAILY_LIMIT_EXCEEDED

fun ErrorCode_value :: "ErrorCode \<Rightarrow> nat" where
  "ErrorCode_value INVALID_TTB_KEY = 100"
| "ErrorCode_value MISSING_REQUIRED_PARAM = 200"
| "ErrorCode_value INVALID_PARAM_VALUE = 300"
| "ErrorCode_value SYSTEM_ERROR = 900"
| "ErrorCode_value DAILY_LIMIT_EXCEEDED = 901"

definition ErrorCode_of :: "nat \<Rightarrow> ErrorCode option" where
  "ErrorCode_of n =
     (if n = 100 then Some INVALID_TTB_KEY
      else if n = 200 then Some MISSING_REQUIRED_PARAM
      else if n = 300 then Some INVALID_PARAM_VALUE
      else if n = 900 then Some SYSTEM_ERROR
      else if n = 901 then Some DAILY_LIMIT_EXCEEDED
      else None)"

record AladinApiError =
  errorCode :: nat
  errorMessage :: string

record AxiosResponse =
  status :: nat
  responseData :: "AladinApiError option"

datatype thrown =
  AxiosError "AxiosResponse option" "string option" string bool
| StandardError ErrorCode string original int
| JsError string
| RangeError
and original =
  NoOriginal
| OriginalError thrown
| OriginalData "AladinApiError option"

fun thrown_message :: "thrown \<Rightarrow> string" where
  "thrown_message (AxiosError r c m cyclic) = m"
| "thrown_message (StandardError c m orig t) = m"
| "thrown_message (JsError m) = m"
| "thrown_message RangeError = ''Maximum call stack size exceeded''"

fun thrown_code :: "thrown \<Rightarrow> ErrorCode option" where
  "thrown_code (StandardError c m orig t) = Some c"
| "thrown_code _ = None"

subsection \<open>Logging an error\<close>

text \<open>
  Every method of the logger first runs \<^verbatim>\<open>maskSensitiveData\<close> over what it is given, a
  recursion that copies each object and descends into every property that is an object.
  On an object graph with a cycle it never reaches a leaf and the runtime ends it with a
  \<^verbatim>\<open>RangeError\<close>; on any other it returns, and the entry is written. Of the logger the
  model keeps this only: whether a call of \<^verbatim>\<open>logStructuredError(error, context)\<close> throws.
  The graph of a \<^verbatim>\<open>StandardError\<close> has a cycle when its \<^verbatim>\<open>originalError\<close> has one; the
  own enumerable properties of a plain \<^verbatim>\<open>Error\<close> and the data of a response have none.
\<close>

fun has_cycle :: "thrown \<Rightarrow> bool" and original_has_cycle :: "original \<Rightarrow> bool" where
  "has_cycle (AxiosError r c m cyclic) = cyclic"
| "has_cycle (StandardError c m orig t) = original_has_cycle orig"
| "has_cycle (JsError m) = False"
| "has_cycle RangeError = False"
| "original_has_cycle NoOriginal = False"
| "original_has_cycle (OriginalError e) = has_cycle e"
| "original_has_cycle (OriginalData b) = False"

definition logStructuredError :: "thrown \<Rightarrow> thrown list \<Rightarrow> thrown option" where
  "logStructuredError error context =
     (if has_cycle error \<or> list_ex has_cycle context then Some RangeError else None)"

text \<open>A handler that logs the \<^verbatim>\<open>StandardError\<close> it has made before returning it: when
  the logging throws, so does the handler, and the model gives the \<^verbatim>\<open>RangeError\<close> in
  place of the result. No handler returns a \<^verbatim>\<open>RangeError\<close>.\<close>

definition logged :: "thrown \<Rightarrow> thrown list \<Rightarrow> thrown" where
  "logged error context = (case logStructuredError error context of Some x \<Rightarrow> x | None \<Rightarrow> error)"


fun ALADIN_ERROR_DETAILS_message :: "ErrorCode \<Rightarrow> string" where
  "ALADIN_ERROR_DETAILS_message INVALID_TTB_KEY = ''invalid TTB key''"
| "ALADIN_ERROR_DETAILS_message MISSING_REQUIRED_PARAM = ''required parameter missing''"
| "ALADIN_ERROR_DETAILS_message INVALID_PARAM_VALUE = ''invalid parameter value''"
| "ALADIN_ERROR_DETAILS_message SYSTEM_ERROR = ''system error, try again later''"
| "ALADIN_ERROR_DETAILS_message DAILY_LIMIT_EXCEEDED = ''daily call limit (5,000) exceeded''"

definition NETWORK_ERROR_MAPPING :: "string \<Rightarrow> string option" where
  "NETWORK_ERROR_MAPPING c =
     (if c = ''ECONNREFUSED'' then Some ''cannot connect to the server''
      else if c = ''ENOTFOUND'' then Some ''server not found''
      else if c = ''ECONNABORTED'' then Some ''request timed out''
      else if c = ''ETIMEDOUT'' then Some ''request timed out''
      else None)"

datatype ErrorCategory =
  AUTHENTICATION | PARAMETER | RATE_LIMIT | NETWORK | API_RESPONSE | SYSTEM | VALIDATION | MCP_PROTOCOL

definition HTTP_STATUS_ERROR_MAPPING :: "nat \<Rightarrow> (ErrorCategory \<times> string) option" where
  "HTTP_STATUS_ERROR_MAPPING st =
     (if st = 400 then Some (PARAMETER, ''bad request'')
      else if st = 401 then Some (AUTHENTICATION, ''authentication failed'')
      else if st = 403 then Some (AUTHENTICATION, ''access denied'')
      else if st = 404 then Some (API_RESPONSE, ''resource not found'')
      else if st = 429 then Some (RATE_LIMIT, ''call frequency limit exceeded'')
      else if st = 500 then Some (SYSTEM, ''internal server error'')
      else if st = 502 then Some (NETWORK, ''gateway error'')
      else if st = 503 then Some (SYSTEM, ''service unavailable'')
      else if st = 504 then Some (NETWORK, ''gateway timeout'')
      else None)"

text \<open>
  The methods of \<^verbatim>\<open>AladinErrorHandler\<close>. Each takes the instant \<open>now\<close> that
  \<^verbatim>\<open>new Date()\<close> reads in \<^verbatim>\<open>createStandardError\<close>, and stores as \<^verbatim>\<open>originalError\<close>
  what the source passes: the upstream error body, the error itself, or the response
  data. Where the source logs the error before returning it, the model does (\<open>logged\<close>).
  The per-category error counter touches no state any property below is about and is
  left out.
\<close>

definition createStandardError :: "int \<Rightarrow> ErrorCode \<Rightarrow> string \<Rightarrow> original \<Rightarrow> thrown" where
  "createStandardError now c m orig = StandardError c m orig now"

text \<open>\<^verbatim>\<open>handleAladinApiError(apiError)\<close>: an unknown code is logged as a warning with the
  code and the message only, a known one through \<^verbatim>\<open>logStructuredError\<close>.\<close>

definition handleAladinApiError :: "int \<Rightarrow> AladinApiError \<Rightarrow> thrown" where
  "handleAladinApiError now apiError =
     (case ErrorCode_of (errorCode apiError) of
        None \<Rightarrow>
          createStandardError now SYSTEM_ERROR
            (if errorMessage apiError \<noteq> [] then errorMessage apiError else ''unknown API error'')
            (OriginalData (Some apiError))
      | Some c \<Rightarrow>
          logged (createStandardError now c (ALADIN_ERROR_DETAILS_message c)
                    (OriginalData (Some apiError))) [])"

text \<open>\<^verbatim>\<open>handleNetworkError(error)\<close>: only a transport code of the mapping is logged.\<close>

definition handleNetworkError :: "int \<Rightarrow> thrown \<Rightarrow> string \<Rightarrow> thrown" where
  "handleNetworkError now error c =
     (case NETWORK_ERROR_MAPPING c of
        Some m \<Rightarrow> logged (createStandardError now SYSTEM_ERROR m (OriginalError error)) []
      | None \<Rightarrow>
          createStandardError now SYSTEM_ERROR ''network connection failed'' (OriginalError error))"

text \<open>\<^verbatim>\<open>handleHttpStatusError(statusCode, responseData)\<close>: only a status of the mapping is
  logged.\<close>

definition handleHttpStatusError :: "int \<Rightarrow> nat \<Rightarrow> AladinApiError option \<Rightarrow> thrown" where
  "handleHttpStatusError now statusCode body =
     (case HTTP_STATUS_ERROR_MAPPING statusCode of
        Some (category, m) \<Rightarrow>
          logged
            (createStandardError now
               (case category of
                  AUTHENTICATION \<Rightarrow> INVALID_TTB_KEY
                | PARAMETER \<Rightarrow> INVALID_PARAM_VALUE
                | RATE_LIMIT \<Rightarrow> DAILY_LIMIT_EXCEEDED
                | _ \<Rightarrow> SYSTEM_ERROR)
               m (OriginalData body)) []
      | None \<Rightarrow>
          createStandardError now SYSTEM_ERROR
            (''HTTP '' @ String_nat statusCode @ '' error'') (OriginalData body))"

text \<open>\<^verbatim>\<open>errors.join(', ')\<close>.\<close>

fun join_comma :: "string list \<Rightarrow> string" where
  "join_comma [] = []"
| "join_comma [x] = x"
| "join_comma (x # y # ys) = x @ '', '' @ join_comma (y # ys)"

definition handleValidationError :: "int \<Rightarrow> ValidationResult \<Rightarrow> thrown" where
  "handleValidationError now validation =
     logged (createStandardError now INVALID_PARAM_VALUE (join_comma (errors validation)) NoOriginal)
       []"

definition handleApiLimitExceeded :: "int \<Rightarrow> nat \<Rightarrow> nat \<Rightarrow> thrown" where
  "handleApiLimitExceeded now usageDailyLimit usageDailyCount =
     logged
       (createStandardError now DAILY_LIMIT_EXCEEDED
          (''daily API call limit ('' @ String_nat usageDailyLimit
             @ '') exceeded; current usage: '' @ String_nat usageDailyCount)
          NoOriginal) []"

definition handleInvalidTtbKey :: "int \<Rightarrow> thrown" where
  "handleInvalidTtbKey now =
     logged (createStandardError now INVALID_TTB_KEY ''TTB key is not valid'' NoOriginal) []"

text \<open>
  \<^verbatim>\<open>handleGenericError(error, context)\<close> with a context given: the message is
  \<^verbatim>\<open>`${context}: ${error.message || error}`\<close>, the code is always \<^verbatim>\<open>SYSTEM_ERROR\<close>, and
  the error is logged with the original error in the log context as well. An empty
  message makes JavaScript print the error object itself; the model keeps the empty
  text there.
\<close>

definition handleGenericError :: "int \<Rightarrow> thrown \<Rightarrow> string \<Rightarrow> thrown" where
  "handleGenericError now error context =
     logged
       (createStandardError now SYSTEM_ERROR (context @ '': '' @ thrown_message error)
          (OriginalError error))
       [error]"


text \<open>
  \<^verbatim>\<open>AladinApiClient.handleApiError\<close>: an Axios error is classified by its upstream error
  body, then by its transport code, then by its HTTP status; anything else, a
  \<^verbatim>\<open>StandardError\<close> included, goes through \<^verbatim>\<open>handleGenericError(error, 'API_CALL')\<close>.
\<close>

definition handleApiError :: "int \<Rightarrow> thrown \<Rightarrow> thrown" where
  "handleApiError now error =
     (case error of
        AxiosError resp ecode m cyclic \<Rightarrow>
          let apiError = (case resp of None \<Rightarrow> None | Some r \<Rightarrow> responseData r)
          in if (case apiError of Some a \<Rightarrow> errorCode a \<noteq> 0 | None \<Rightarrow> False) then
               handleAladinApiError now (the apiError)
             else if (case ecode of Some c \<Rightarrow> c \<noteq> [] | None \<Rightarrow> False) then
               handleNetworkError now error (the ecode)
             else if (case resp of Some r \<Rightarrow> status r \<noteq> 0 | None \<Rightarrow> False) then
               handleHttpStatusError now (status (the resp)) (responseData (the resp))
             else handleGenericError now error ''API_CALL''
      | _ \<Rightarrow> handleGenericError now error ''API_CALL'')"

section \<open>The client: retry, circuit breaker, cache\<close>

subsection \<open>Retry with exponential backoff\<close>

text \<open>\<^verbatim>\<open>HTTP_CONFIG\<close> of \<^verbatim>\<open>constants/api.ts\<close>.\<close>

definition MAX_RETRIES :: nat where "MAX_RETRIES = 3"
definition RETRY_DELAY :: rat where "RETRY_DELAY = 1000"
definition MAX_RETRY_DELAY :: rat where "MAX_RETRY_DELAY = 8000"
definition RETRY_MULTIPLIER :: rat where "RETRY_MULTIPLIER = 2"

text \<open>
  \<^verbatim>\<open>AladinApiClient.isRetryableError\<close>: only an Axios error can be retried; \<^verbatim>\<open>!status\<close>
  holds when there is no response, or the status is 0.
\<close>

definition isRetryableError :: "thrown \<Rightarrow> bool" where
  "isRetryableError error =
     (case error of
        AxiosError resp ecode m cyclic \<Rightarrow>
          (case resp of None \<Rightarrow> True | Some r \<Rightarrow> status r = 0 \<or> status r \<ge> 500 \<or> status r = 429)
          \<or> ecode = Some ''ECONNREFUSED'' \<or> ecode = Some ''ENOTFOUND''
          \<or> ecode = Some ''ECONNABORTED''
      | _ \<Rightarrow> False)"

text \<open>
  \<^verbatim>\<open>retryRequest(requestFn, retries = MAX_RETRIES)\<close>. The request function acts on the
  state \<open>'s\<close> of whatever it calls and either resolves (\<open>Inr\<close>) or rejects (\<open>Inl\<close>).
  \<open>random\<close> gives the value \<^verbatim>\<open>Math.random()\<close> returns at each attempt and \<open>sleep\<close> is
  \<^verbatim>\<open>await new Promise(resolve => setTimeout(resolve, delay))\<close>. The last component of the
  result counts the invocations of \<open>requestFn\<close>, one for each
  \<^verbatim>\<open>logger.debug('API request attempt', ...)\<close> of the source. \<open>retries\<close> never exceeds
  \<^verbatim>\<open>MAX_RETRIES\<close>: the parameter is only defaulted or decremented.
\<close>

fun retryRequest ::
  "('s \<Rightarrow> (thrown + 'r) \<times> 's) \<Rightarrow> (nat \<Rightarrow> rat) \<Rightarrow> (rat \<Rightarrow> 's \<Rightarrow> 's) \<Rightarrow> nat \<Rightarrow> 's
     \<Rightarrow> ((thrown + 'r) \<times> 's) \<times> nat" where
  "retryRequest requestFn random sleep retries s =
     (let attempt = MAX_RETRIES - retries + 1;
          (outcome, s1) = requestFn s
      in case outcome of
           Inr response \<Rightarrow> ((Inr response, s1), 1)
         | Inl error \<Rightarrow>
             if retries > 0 \<and> isRetryableError error then
               let baseDelay = RETRY_DELAY * RETRY_MULTIPLIER ^ (attempt - 1);
                   jitter = random attempt * (1 / 10) * baseDelay;
                   delay = min (baseDelay + jitter) MAX_RETRY_DELAY;
                   (res, n) = retryRequest requestFn random sleep (retries - 1) (sleep delay s1)
               in (res, Suc n)
             else ((Inl error, s1), 1))"

declare retryRequest.simps [simp del]

subsection \<open>Circuit breaker\<close>

record breaker =
  circuitBreakerFailures :: nat
  circuitBreakerLastFailure :: "int option"

definition CIRCUIT_BREAKER_THRESHOLD :: nat where "CIRCUIT_BREAKER_THRESHOLD = 5"
definition CIRCUIT_BREAKER_TIMEOUT :: int where "CIRCUIT_BREAKER_TIMEOUT = 60000"

text \<open>\<^verbatim>\<open>handleCircuitBreaker\<close>, called by the response interceptor on every failed response.\<close>

definition handleCircuitBreaker :: "int \<Rightarrow> breaker \<Rightarrow> breaker" where
  "handleCircuitBreaker now b =
     b\<lparr>circuitBreakerFailures := circuitBreakerFailures b + 1,
       circuitBreakerLastFailure := Some now\<rparr>"

text \<open>The response interceptor on a successful response:
  \<^verbatim>\<open>this.circuitBreakerFailures = 0\<close>.\<close>

definition onResponseSuccess :: "breaker \<Rightarrow> breaker" where
  "onResponseSuccess b = b\<lparr>circuitBreakerFailures := 0\<rparr>"

text \<open>\<^verbatim>\<open>checkCircuitBreaker\<close>: throws while the breaker is open, resets it after the
  timeout, and otherwise leaves the state alone.\<close>

definition checkCircuitBreaker :: "int \<Rightarrow> breaker \<Rightarrow> thrown + breaker" where
  "checkCircuitBreaker now b =
     (if circuitBreakerFailures b \<ge> CIRCUIT_BREAKER_THRESHOLD then
        (case circuitBreakerLastFailure b of
           Some lastFailure \<Rightarrow>
             let timeSinceLastFailure = now - lastFailure
             in if timeSinceLastFailure < CIRCUIT_BREAKER_TIMEOUT then
                  Inl (createStandardError now SYSTEM_ERROR
                         ''service temporarily blocked, try again later'' NoOriginal)
                else Inr (b\<lparr>circuitBreakerFailures := 0, circuitBreakerLastFailure := None\<rparr>)
         | None \<Rightarrow> Inr b)
      else Inr b)"

text \<open>The failure notifications at the instants \<open>ts\<close>, one after the other.\<close>

definition failures_at :: "int list \<Rightarrow> breaker \<Rightarrow> breaker" where
  "failures_at ts b = fold handleCircuitBreaker ts b"

subsection \<open>Cache\<close>

text \<open>
  \<^verbatim>\<open>CacheEntry<T>\<close> and the cache, a JavaScript \<^verbatim>\<open>Map\<close>: keys are unique and keep
  their insertion order, \<^verbatim>\<open>set\<close> on a present key replaces the value in place and on an
  absent key appends, \<^verbatim>\<open>delete\<close> removes the key. The data is \<open>None\<close> where the
  source stores \<^verbatim>\<open>null\<close>.
\<close>

record 'v CacheEntry =
  data :: "'v option"
  timestamp :: int
  ttl :: int

type_synonym 'v cache = "(string \<times> 'v CacheEntry) list"

text \<open>\<^verbatim>\<open>CACHE_CONFIG\<close>.\<close>

definition SEARCH_TTL :: int where "SEARCH_TTL = 5 * 60 * 1000"
definition LOOKUP_TTL :: int where "LOOKUP_TTL = 30 * 60 * 1000"
definition LIST_TTL :: int where "LIST_TTL = 10 * 60 * 1000"
definition MAX_CACHE_SIZE :: nat where "MAX_CACHE_SIZE = 1000"
definition KEY_PREFIX :: string where "KEY_PREFIX = ''aladin_mcp''"

text \<open>\<^verbatim>\<open>getFromCache\<close> returns the data, or \<open>None\<close> for \<^verbatim>\<open>null\<close>, and the cache as
  the read leaves it.\<close>

definition getFromCache :: "int \<Rightarrow> string \<Rightarrow> 'v cache \<Rightarrow> 'v option \<times> 'v cache" where
  "getFromCache now key c =
     (case map_of c key of
        None \<Rightarrow> (None, c)
      | Some entry \<Rightarrow>
          if now - timestamp entry > ttl entry then (None, AList.delete key c)
          else (data entry, c))"

text \<open>\<^verbatim>\<open>setCache\<close>: at capacity the first key of the map goes, unless it is the empty
  string (\<^verbatim>\<open>if (oldestKey)\<close>).\<close>

definition setCache :: "int \<Rightarrow> string \<Rightarrow> 'v option \<Rightarrow> int \<Rightarrow> 'v cache \<Rightarrow> 'v cache" where
  "setCache now key d t c =
     (let c1 = (if length c \<ge> MAX_CACHE_SIZE then
                  (case c of
                     [] \<Rightarrow> c
                   | (oldestKey, oldest) # rest \<Rightarrow>
                       if oldestKey \<noteq> [] then AList.delete oldestKey c else c)
                else c)
      in AList.update key \<lparr>data = d, timestamp = now, ttl = t\<rparr> c1)"

subsection \<open>Cache key\<close>

text \<open>
  A parameter object: its own properties in the order they were added, the names
  unique. The values are those of the parameter interfaces of \<^verbatim>\<open>types.ts\<close>: strings,
  numbers (whole, as every numeric parameter is), arrays of strings, and \<^verbatim>\<open>undefined\<close>
  for an optional field passed explicitly.
\<close>

datatype param_value = PString string | PNumber int | PArray "string list" | PUndefined

type_synonym params = "(string \<times> param_value) list"

text \<open>
  The order in which JavaScript enumerates the own properties of an object
  (\<^verbatim>\<open>Object.keys\<close>, \<^verbatim>\<open>JSON.stringify\<close>): first the names that are array indices (a
  decimal numeral without leading zero, below \<open>2^32 - 1\<close>) in ascending numeric order,
  then the other names in the order they were added.
\<close>

definition index_value :: "string \<Rightarrow> nat" where
  "index_value s = foldl (\<lambda>acc c. acc * 10 + Number_digit c) 0 s"

definition is_array_index :: "string \<Rightarrow> bool" where
  "is_array_index s =
     (s \<noteq> [] \<and> list_all is_digit s \<and> (length s = 1 \<or> hd s \<noteq> CHR ''0'')
      \<and> index_value s < 2 ^ 32 - 1)"

definition own_properties :: "params \<Rightarrow> params" where
  "own_properties obj =
     sort_key (\<lambda>(k, v). index_value k) (filter (\<lambda>(k, v). is_array_index k) obj)
       @ filter (\<lambda>(k, v). \<not> is_array_index k) obj"

definition Object_keys :: "params \<Rightarrow> string list" where
  "Object_keys obj = map fst (own_properties obj)"

text \<open>\<^verbatim>\<open>String(n)\<close> on a whole number.\<close>

definition String_int :: "int \<Rightarrow> string" where
  "String_int n = (if n < 0 then ''-'' @ String_nat (nat (- n)) else String_nat (nat n))"

text \<open>
  \<^verbatim>\<open>JSON.stringify\<close> on these values. A string is quoted: \<open>"\<close> and \<open>\\<close> get a
  backslash, the control characters below \<open>0x20\<close> are written \<open>\b \t \n \f \r\<close> or
  \<open>\u00XX\<close> with lower-case hexadecimal digits. An array prints its elements between
  brackets. An object prints \<open>"name":value\<close> for each property, in enumeration order,
  and skips the \<^verbatim>\<open>undefined\<close> ones.
\<close>

definition hex_digit :: "nat \<Rightarrow> char" where
  "hex_digit n = (if n < 10 then char_of (48 + n) else char_of (87 + n))"

definition JSON_escape :: "char \<Rightarrow> string" where
  "JSON_escape c =
     (if c = CHR 0x22 \<or> c = CHR 0x5C then [CHR 0x5C, c]
      else if c = CHR 0x08 then [CHR 0x5C, CHR ''b'']
      else if c = CHR 0x09 then [CHR 0x5C, CHR ''t'']
      else if c = CHR 0x0A then [CHR 0x5C, CHR ''n'']
      else if c = CHR 0x0C then [CHR 0x5C, CHR ''f'']
      else if c = CHR 0x0D then [CHR 0x5C, CHR ''r'']
      else if (of_char c :: nat) < 32 then
        [CHR 0x5C, CHR ''u'', CHR ''0'', CHR ''0'',
         hex_digit (of_char c div 16), hex_digit (of_char c mod 16)]
      else [c])"

definition JSON_quote :: "string \<Rightarrow> string" where
  "JSON_quote s = [CHR 0x22] @ concat (map JSON_escape s) @ [CHR 0x22]"

fun join_with :: "string \<Rightarrow> string list \<Rightarrow> string" where
  "join_with sep [] = []"
| "join_with sep [x] = x"
| "join_with sep (x # y # ys) = x @ sep @ join_with sep (y # ys)"

fun JSON_value :: "param_value \<Rightarrow> string" where
  "JSON_value (PString s) = JSON_quote s"
| "JSON_value (PNumber n) = String_int n"
| "JSON_value (PArray xs) = ''['' @ join_with '','' (map JSON_quote xs) @ '']''"
| "JSON_value PUndefined = []"

text \<open>The text of an object whose properties are enumerated as \<open>ps\<close>.\<close>

definition JSON_object :: "params \<Rightarrow> string" where
  "JSON_object ps =
     ''{'' @ join_with '',''
               (map (\<lambda>(k, v). JSON_quote k @ '':'' @ JSON_value v)
                    (filter (\<lambda>(k, v). v \<noteq> PUndefined) ps))
       @ ''}''"

definition JSON_stringify :: "params \<Rightarrow> string" where
  "JSON_stringify obj = JSON_object (own_properties obj)"

text \<open>\<^verbatim>\<open>params[key]\<close>: the value of the property, \<^verbatim>\<open>undefined\<close> when there is none.\<close>

definition get_prop :: "params \<Rightarrow> string \<Rightarrow> param_value" where
  "get_prop ps name = (case map_of ps name of Some v \<Rightarrow> v | None \<Rightarrow> PUndefined)"

text \<open>
  The assignment \<^verbatim>\<open>result[key] = value\<close> on a plain object. The name \<^verbatim>\<open>__proto__\<close> is the
  accessor of \<^verbatim>\<open>Object.prototype\<close>: assigning to it adds no own property. Any other name
  is set in place when the object has it and added last when it has not.
\<close>

definition assign :: "string \<Rightarrow> param_value \<Rightarrow> params \<Rightarrow> params" where
  "assign key v result = (if key = ''__proto__'' then result else AList.update key v result)"

text \<open>
  \<^verbatim>\<open>createCacheKey(prefix, params)\<close>: \<^verbatim>\<open>Object.keys(params).sort()\<close> orders the names by
  code unit, and the \<^verbatim>\<open>reduce\<close> assigns \<^verbatim>\<open>result[key] = params[key]\<close> into an empty object
  in that order.
\<close>

definition sortedParams :: "params \<Rightarrow> params" where
  "sortedParams ps =
     fold (\<lambda>key result. assign key (get_prop ps key) result) (sort (Object_keys ps)) []"

definition createCacheKey :: "string \<Rightarrow> params \<Rightarrow> string" where
  "createCacheKey prefix ps =
     KEY_PREFIX @ '':'' @ prefix @ '':'' @ JSON_stringify (sortedParams ps)"


section \<open>The rate limiter\<close>

text \<open>\<^verbatim>\<open>RATE_LIMIT_CONFIG\<close> of \<^verbatim>\<open>rate-limiter.ts\<close> and \<^verbatim>\<open>DAILY_API_LIMIT\<close>.\<close>

definition DAILY_API_LIMIT :: nat where "DAILY_API_LIMIT = 5000"
definition DEFAULT_REQUEST_INTERVAL :: rat where "DEFAULT_REQUEST_INTERVAL = 200"
definition BURST_LIMIT :: nat where "BURST_LIMIT = 10"
definition BURST_WINDOW :: int where "BURST_WINDOW = 1000"
definition BACKOFF_MULTIPLIER :: rat where "BACKOFF_MULTIPLIER = 3 / 2"
definition MAX_BACKOFF_DELAY :: rat where "MAX_BACKOFF_DELAY = 5000"
definition TTB_VALIDATION_INTERVAL :: int where "TTB_VALIDATION_INTERVAL = 24 * 60 * 60 * 1000"

text \<open>
  \<^verbatim>\<open>interface TtbKeyUsage\<close> and \<^verbatim>\<open>interface RateLimitState\<close>. A \<^verbatim>\<open>Date\<close> is its instant
  in epoch milliseconds. The delay grows by the factor 1.5 and is a fraction.
\<close>

record TtbKeyUsage =
  ttbKey :: string
  dailyCount :: nat
  dailyLimit :: nat
  lastReset :: int
  lastCall :: int
  lastValidation :: int
  usageIsValid :: bool
  requestHistory :: "int list"
  totalRequests :: nat
  successfulRequests :: nat
  failedRequests :: nat

record RateLimitState =
  isBlocked :: bool
  nextAllowedTime :: rat
  currentDelay :: rat
  burstCount :: nat
  lastBurstReset :: int

text \<open>
  The state of \<^verbatim>\<open>AladinRateLimiter\<close>: the two maps by TTB key and
  \<^verbatim>\<open>globalUsageStats\<close>, and with them the offset of the local time zone of the process
  from UTC, in milliseconds, which the \<^verbatim>\<open>Date\<close> methods of local time read. The request
  metrics (average response time, requests per minute, success rate) feed no decision
  and are left out.
\<close>

record limiter =
  ttbKeyUsages :: "(string \<times> TtbKeyUsage) list"
  rateLimitStates :: "(string \<times> RateLimitState) list"
  globalDailyCount :: nat
  globalLastReset :: int
  globalLastCall :: int
  zoneOffset :: int

subsection \<open>The calendar day of an instant\<close>

text \<open>
  \<^verbatim>\<open>Date.prototype.getDate\<close> is the day of the month of the instant in local time, here
  a zone at a fixed offset \<open>tz\<close> from UTC. The civil date follows from the day count by
  the usual era arithmetic of the proleptic Gregorian calendar.
\<close>

definition civil_from_days :: "int \<Rightarrow> int \<times> int \<times> int" where
  "civil_from_days z0 =
     (let z = z0 + 719468;
          era = z div 146097;
          doe = z - era * 146097;
          yoe = (doe - doe div 1460 + doe div 36524 - doe div 146096) div 365;
          y = yoe + era * 400;
          doy = doe - (365 * yoe + yoe div 4 - yoe div 100);
          mp = (5 * doy + 2) div 153;
          d = doy - (153 * mp + 2) div 5 + 1;
          m = (if mp < 10 then mp + 3 else mp - 9)
      in (if m \<le> 2 then y + 1 else y, m, d))"

definition calendar_date :: "int \<Rightarrow> int \<Rightarrow> int \<times> int \<times> int" where
  "calendar_date tz ms = civil_from_days ((ms + tz) div 86400000)"

definition getDate :: "int \<Rightarrow> int \<Rightarrow> int" where
  "getDate tz ms = snd (snd (calendar_date tz ms))"

subsection \<open>Usage records by key\<close>

definition new_usage :: "int \<Rightarrow> string \<Rightarrow> TtbKeyUsage" where
  "new_usage now key =
     \<lparr>ttbKey = key, dailyCount = 0, dailyLimit = DAILY_API_LIMIT, lastReset = now,
      lastCall = now, lastValidation = 0, usageIsValid = True, requestHistory = [],
      totalRequests = 0, successfulRequests = 0, failedRequests = 0\<rparr>"

text \<open>\<^verbatim>\<open>getTtbKeyUsage\<close> and \<^verbatim>\<open>getRateLimitState\<close> create the record of a key at its first
  use. The source hands out a reference to the record in the map; the model hands out
  the record and \<open>put_usage\<close>, \<open>put_state\<close> write a changed one back.\<close>

definition getTtbKeyUsage :: "int \<Rightarrow> string \<Rightarrow> limiter \<Rightarrow> TtbKeyUsage \<times> limiter" where
  "getTtbKeyUsage now key L =
     (case map_of (ttbKeyUsages L) key of
        Some u \<Rightarrow> (u, L)
      | None \<Rightarrow>
          (new_usage now key,
           L\<lparr>ttbKeyUsages := AList.update key (new_usage now key) (ttbKeyUsages L)\<rparr>))"

definition new_state :: "int \<Rightarrow> RateLimitState" where
  "new_state now =
     \<lparr>isBlocked = False, nextAllowedTime = 0, currentDelay = DEFAULT_REQUEST_INTERVAL,
      burstCount = 0, lastBurstReset = now\<rparr>"

definition getRateLimitState :: "int \<Rightarrow> string \<Rightarrow> limiter \<Rightarrow> RateLimitState \<times> limiter" where
  "getRateLimitState now key L =
     (case map_of (rateLimitStates L) key of
        Some r \<Rightarrow> (r, L)
      | None \<Rightarrow>
          (new_state now, L\<lparr>rateLimitStates := AList.update key (new_state now) (rateLimitStates L)\<rparr>))"

definition put_usage :: "string \<Rightarrow> TtbKeyUsage \<Rightarrow> limiter \<Rightarrow> limiter" where
  "put_usage key u L = L\<lparr>ttbKeyUsages := AList.update key u (ttbKeyUsages L)\<rparr>"

definition put_state :: "string \<Rightarrow> RateLimitState \<Rightarrow> limiter \<Rightarrow> limiter" where
  "put_state key r L = L\<lparr>rateLimitStates := AList.update key r (rateLimitStates L)\<rparr>"

subsection \<open>Daily limit\<close>

definition resetDailyUsage :: "int \<Rightarrow> TtbKeyUsage \<Rightarrow> TtbKeyUsage" where
  "resetDailyUsage now usage = usage\<lparr>dailyCount := 0, lastReset := now\<rparr>"

text \<open>\<^verbatim>\<open>checkDailyLimit\<close>: the error thrown, if any, and the usage record as the check
  leaves it. The second component carries the count that the limit comparison reads.\<close>

definition checkDailyLimit ::
  "int \<Rightarrow> int \<Rightarrow> TtbKeyUsage \<Rightarrow> thrown option \<times> TtbKeyUsage" where
  "checkDailyLimit tz now usage =
     (let usage1 = (if getDate tz now \<noteq> getDate tz (lastReset usage) then resetDailyUsage now usage
                    else usage)
      in if dailyCount usage1 \<ge> dailyLimit usage1 then
           (Some (handleApiLimitExceeded now (dailyLimit usage1) (dailyCount usage1)), usage1)
         else (None, usage1))"

text \<open>The callback that \<^verbatim>\<open>setupDailyReset\<close> schedules for the next local midnight: every
  key is reset, and the global statistics.\<close>

definition dailyResetTimer :: "int \<Rightarrow> limiter \<Rightarrow> limiter" where
  "dailyResetTimer now L =
     L\<lparr>ttbKeyUsages := map (\<lambda>(k, u). (k, resetDailyUsage now u)) (ttbKeyUsages L),
       globalDailyCount := 0,
       globalLastReset := now\<rparr>"

subsection \<open>Key validation, request frequency, burst\<close>

text \<open>\<^verbatim>\<open>/^ttb[a-zA-Z0-9.]+$/\<close>.\<close>

definition is_alnum_dot :: "char \<Rightarrow> bool" where
  "is_alnum_dot c =
     ((CHR ''a'' \<le> c \<and> c \<le> CHR ''z'') \<or> (CHR ''A'' \<le> c \<and> c \<le> CHR ''Z'')
      \<or> (CHR ''0'' \<le> c \<and> c \<le> CHR ''9'') \<or> c = CHR ''.'')"

definition TTB_KEY_PATTERN_test :: "string \<Rightarrow> bool" where
  "TTB_KEY_PATTERN_test s =
     (take 3 s = ''ttb'' \<and> drop 3 s \<noteq> [] \<and> list_all is_alnum_dot (drop 3 s))"

text \<open>\<^verbatim>\<open>validateTtbKey\<close>: the inner \<^verbatim>\<open>catch\<close> only sets \<^verbatim>\<open>isValid = false\<close> again and
  rethrows.\<close>

definition validateTtbKey :: "int \<Rightarrow> TtbKeyUsage \<Rightarrow> thrown option \<times> TtbKeyUsage" where
  "validateTtbKey now usage =
     (let timeSinceValidation = now - lastValidation usage
      in if timeSinceValidation > TTB_VALIDATION_INTERVAL \<or> \<not> usageIsValid usage then
           if \<not> TTB_KEY_PATTERN_test (ttbKey usage) then
             (Some (handleInvalidTtbKey now), usage\<lparr>usageIsValid := False\<rparr>)
           else (None, usage\<lparr>usageIsValid := True, lastValidation := now\<rparr>)
         else if \<not> usageIsValid usage then (Some (handleInvalidTtbKey now), usage)
         else (None, usage))"

text \<open>
  \<^verbatim>\<open>checkRequestFrequency\<close>: the error thrown, if any, the state as the check leaves it,
  and the delay it awaits, if any. The wait time that the source prints into the message
  is not part of the gloss.
\<close>

definition checkRequestFrequency ::
  "int \<Rightarrow> TtbKeyUsage \<Rightarrow> RateLimitState \<Rightarrow> thrown option \<times> RateLimitState \<times> rat option" where
  "checkRequestFrequency now usage rls =
     (if isBlocked rls \<and> of_int now < nextAllowedTime rls then
        (Some (handleGenericError now (JsError ''request frequency limit, retry later'')
                 ''RATE_LIMIT_BLOCKED''), rls, None)
      else
        let rls1 = (if isBlocked rls \<and> of_int now \<ge> nextAllowedTime rls then
                      rls\<lparr>isBlocked := False, currentDelay := DEFAULT_REQUEST_INTERVAL\<rparr>
                    else rls);
            recentRequests = filter (\<lambda>t. now - t \<le> 1000) (requestHistory usage)
        in if length recentRequests \<ge> 5 then
             let d = min (currentDelay rls1 * BACKOFF_MULTIPLIER) MAX_BACKOFF_DELAY
             in (None,
                 rls1\<lparr>currentDelay := d, isBlocked := True, nextAllowedTime := of_int now + d\<rparr>,
                 Some d)
           else (None, rls1, None))"

text \<open>\<^verbatim>\<open>checkBurstLimit\<close>.\<close>

definition checkBurstLimit :: "int \<Rightarrow> RateLimitState \<Rightarrow> thrown option \<times> RateLimitState" where
  "checkBurstLimit now rls =
     (let rls1 = (if now - lastBurstReset rls > BURST_WINDOW then
                    rls\<lparr>burstCount := 0, lastBurstReset := now\<rparr>
                  else rls)
      in if burstCount rls1 \<ge> BURST_LIMIT then
           let waitTime = BURST_WINDOW - (now - lastBurstReset rls1)
           in (Some (handleGenericError now
                       (JsError (''burst limit, retry after '' @ String_int waitTime @ ''ms''))
                       ''BURST_LIMIT_EXCEEDED''), rls1)
         else (None, rls1\<lparr>burstCount := burstCount rls1 + 1\<rparr>))"

text \<open>
  \<^verbatim>\<open>checkRateLimit\<close>: the four checks in order; the first error ends it. It returns the
  error, the limiter, and the clock: the awaited delay of the frequency check moves the
  clock to the first whole millisecond at which the delay has passed, and the burst
  check reads the clock after it.
\<close>

definition checkRateLimit :: "int \<Rightarrow> string \<Rightarrow> limiter \<Rightarrow> thrown option \<times> limiter \<times> int" where
  "checkRateLimit now key L0 =
     (let (usage0, L1) = getTtbKeyUsage now key L0;
          (rls0, L2) = getRateLimitState now key L1;
          (e1, usage1) = checkDailyLimit (zoneOffset L0) now usage0;
          L3 = put_usage key usage1 L2
      in case e1 of
           Some e \<Rightarrow> (Some e, L3, now)
         | None \<Rightarrow>
             let (e2, usage2) = validateTtbKey now usage1;
                 L4 = put_usage key usage2 L3
             in case e2 of
                  Some e \<Rightarrow> (Some e, L4, now)
                | None \<Rightarrow>
                    let (e3, rls1, slept) = checkRequestFrequency now usage2 rls0;
                        L5 = put_state key rls1 L4
                    in case e3 of
                         Some e \<Rightarrow> (Some e, L5, now)
                       | None \<Rightarrow>
                           let now1 = (case slept of None \<Rightarrow> now | Some d \<Rightarrow> now + \<lceil>d\<rceil>);
                               (e4, rls2) = checkBurstLimit now1 rls1
                           in (e4, put_state key rls2 L5, now1))"

text \<open>\<^verbatim>\<open>recordApiCall\<close>: counted whether the call succeeded or not; the history keeps the
  last minute.\<close>

definition recordApiCall :: "int \<Rightarrow> string \<Rightarrow> bool \<Rightarrow> limiter \<Rightarrow> limiter" where
  "recordApiCall now key success L0 =
     (let (usage, L1) = getTtbKeyUsage now key L0;
          usage1 = usage\<lparr>dailyCount := dailyCount usage + 1,
                         lastCall := now,
                         totalRequests := totalRequests usage + 1\<rparr>;
          usage2 = (if success then usage1\<lparr>successfulRequests := successfulRequests usage1 + 1\<rparr>
                    else usage1\<lparr>failedRequests := failedRequests usage1 + 1\<rparr>);
          L2 = L1\<lparr>globalDailyCount := globalDailyCount L1 + 1, globalLastCall := now\<rparr>;
          usage3 = usage2\<lparr>requestHistory :=
                      filter (\<lambda>t. now - t \<le> 60000) (requestHistory usage2 @ [now])\<rparr>
      in put_usage key usage3 L2)"

text \<open>The daily count of a key, 0 when the limiter has no record of it yet.\<close>

definition dailyCount_of :: "string \<Rightarrow> limiter \<Rightarrow> nat" where
  "dailyCount_of key L = (case map_of (ttbKeyUsages L) key of Some u \<Rightarrow> dailyCount u | None \<Rightarrow> 0)"

definition requestHistory_of :: "string \<Rightarrow> limiter \<Rightarrow> int list" where
  "requestHistory_of key L =
     (case map_of (ttbKeyUsages L) key of Some u \<Rightarrow> requestHistory u | None \<Rightarrow> [])"


section \<open>Response normalisation\<close>

text \<open>
  The values of the fields of an upstream item: whatever the JSON body holds. A number
  is \<^verbatim>\<open>NaN\<close>, an infinity or a finite value (the model keeps it exact and has no
  negative zero); an object or array is kept opaque, named by its text.
\<close>

datatype jsnum = NaN | PosInfinity | NegInfinity | Finite rat

datatype jsval = JUndefined | JNull | JBoolean bool | JNumber jsnum | JString string | JObject string

text \<open>Truthiness, as \<^verbatim>\<open>||\<close> and \<^verbatim>\<open>Boolean(...)\<close> read it.\<close>

fun truthy :: "jsval \<Rightarrow> bool" where
  "truthy JUndefined = False"
| "truthy JNull = False"
| "truthy (JBoolean b) = b"
| "truthy (JNumber n) = (n \<noteq> NaN \<and> n \<noteq> Finite 0)"
| "truthy (JString s) = (s \<noteq> [])"
| "truthy (JObject t) = True"

text \<open>\<^verbatim>\<open>v || d\<close>.\<close>

definition or_default :: "jsval \<Rightarrow> jsval \<Rightarrow> jsval" where
  "or_default v d = (if truthy v then v else d)"

text \<open>
  \<^verbatim>\<open>parseInt(s)\<close> and \<^verbatim>\<open>parseFloat(s)\<close> of the runtime, on ASCII text: leading white
  space is skipped, a sign is read, \<^verbatim>\<open>parseInt\<close> switches to radix 16 after \<^verbatim>\<open>0x\<close>,
  and the longest prefix that is a numeral is converted; \<^verbatim>\<open>NaN\<close> when there is none.
\<close>

definition is_ws :: "char \<Rightarrow> bool" where
  "is_ws c = (c = CHR '' '' \<or> c = CHR 0x09 \<or> c = CHR 0x0A \<or> c = CHR 0x0B \<or> c = CHR 0x0C \<or> c = CHR 0x0D)"

definition digit_in_radix :: "nat \<Rightarrow> char \<Rightarrow> nat option" where
  "digit_in_radix radix c =
     (let v = (if is_digit c then Some (of_char c - 48)
               else if CHR ''a'' \<le> c \<and> c \<le> CHR ''z'' then Some (of_char c - 87)
               else if CHR ''A'' \<le> c \<and> c \<le> CHR ''Z'' then Some (of_char c - 55)
               else None)
      in case v of Some d \<Rightarrow> if d < radix then Some d else None | None \<Rightarrow> None)"

definition numeral_value :: "nat \<Rightarrow> string \<Rightarrow> nat" where
  "numeral_value radix ds = foldl (\<lambda>acc c. acc * radix + the (digit_in_radix radix c)) 0 ds"

definition read_sign :: "string \<Rightarrow> bool \<times> string" where
  "read_sign s =
     (case s of
        [] \<Rightarrow> (False, [])
      | c # r \<Rightarrow> if c = CHR ''-'' then (True, r) else if c = CHR ''+'' then (False, r) else (False, s))"

definition parseInt :: "string \<Rightarrow> jsnum" where
  "parseInt s =
     (let (neg, t1) = read_sign (dropWhile is_ws s);
          (radix, t2) = (if take 2 t1 = ''0x'' \<or> take 2 t1 = ''0X'' then (16, drop 2 t1)
                         else (10, t1));
          ds = takeWhile (\<lambda>c. digit_in_radix radix c \<noteq> None) t2
      in if ds = [] then NaN
         else Finite (if neg then - of_nat (numeral_value radix ds)
                      else of_nat (numeral_value radix ds)))"

definition read_exponent :: "string \<Rightarrow> int" where
  "read_exponent s =
     (case s of
        [] \<Rightarrow> 0
      | c # r \<Rightarrow>
          if c = CHR ''e'' \<or> c = CHR ''E'' then
            let (eneg, r1) = read_sign r;
                eds = takeWhile is_digit r1
            in if eds = [] then 0
               else if eneg then - int (numeral_value 10 eds) else int (numeral_value 10 eds)
          else 0)"

definition parseFloat :: "string \<Rightarrow> jsnum" where
  "parseFloat s =
     (let (neg, t1) = read_sign (dropWhile is_ws s)
      in if take 8 t1 = ''Infinity'' then (if neg then NegInfinity else PosInfinity)
         else
           let ip = takeWhile is_digit t1;
               r1 = dropWhile is_digit t1;
               (fp, r2) = (case r1 of
                             [] \<Rightarrow> ([], [])
                           | c # r \<Rightarrow> if c = CHR ''.'' then (takeWhile is_digit r, dropWhile is_digit r)
                                      else ([], r1))
           in if ip = [] \<and> fp = [] then NaN
              else
                let mantissa = of_nat (numeral_value 10 ip)
                               + of_nat (numeral_value 10 fp) / 10 ^ length fp;
                    ex = read_exponent r2;
                    scaled = (if ex \<ge> 0 then mantissa * 10 ^ nat ex else mantissa / 10 ^ nat (- ex))
                in Finite (if neg then - scaled else scaled))"

text \<open>
  \<^verbatim>\<open>CompleteBookItem\<close> as it arrives: every field holds a JSON value, \<^verbatim>\<open>JUndefined\<close>
  when the body has no such property; \<open>others\<close> are the properties the interface does
  not name, which the spread \<^verbatim>\<open>...item\<close> copies.
\<close>

record CompleteBookItem =
  itemId :: jsval
  title :: jsval
  link :: jsval
  author :: jsval
  pubDate :: jsval
  description :: jsval
  isbn :: jsval
  isbn13 :: jsval
  priceSales :: jsval
  priceStandard :: jsval
  mallType :: jsval
  stockStatus :: jsval
  mileage :: jsval
  cover :: jsval
  categoryId :: jsval
  categoryName :: jsval
  publisher :: jsval
  salesPoint :: jsval
  adult :: jsval
  fixedPrice :: jsval
  customerReviewRank :: jsval
  bestDuration :: jsval
  bestRank :: jsval
  subInfo :: jsval
  others :: "(string \<times> jsval) list"

text \<open>\<^verbatim>\<open>typeof v === 'string' ? parse(v) : v || 0\<close>, the shape of the seven numeric
  fields, and \<^verbatim>\<open>v || ''\<close>, the shape of the twelve text fields.\<close>

definition to_number :: "(string \<Rightarrow> jsnum) \<Rightarrow> jsval \<Rightarrow> jsval" where
  "to_number parse v =
     (case v of JString s \<Rightarrow> JNumber (parse s) | _ \<Rightarrow> or_default v (JNumber (Finite 0)))"

definition to_text :: "jsval \<Rightarrow> jsval" where
  "to_text v = or_default v (JString [])"

definition normalizeBookItem :: "CompleteBookItem \<Rightarrow> CompleteBookItem" where
  "normalizeBookItem item =
     item\<lparr>itemId := to_number parseInt (itemId item),
          title := to_text (title item),
          author := to_text (author item),
          publisher := to_text (publisher item),
          pubDate := to_text (pubDate item),
          description := to_text (description item),
          isbn := to_text (isbn item),
          isbn13 := to_text (isbn13 item),
          priceSales := to_number parseInt (priceSales item),
          priceStandard := to_number parseInt (priceStandard item),
          cover := to_text (cover item),
          categoryId := to_number parseInt (categoryId item),
          categoryName := to_text (categoryName item),
          salesPoint := to_number parseInt (salesPoint item),
          customerReviewRank := to_number parseFloat (customerReviewRank item),
          adult := JBoolean (truthy (adult item)),
          fixedPrice := JBoolean (truthy (fixedPrice item)),
          mileage := to_number parseInt (mileage item),
          stockStatus := to_text (stockStatus item),
          mallType := to_text (mallType item),
          link := to_text (link item)\<rparr>"

text \<open>The types a field may arrive with: a numeric field as a number, as a numeric
  string or not at all, a text field as a string or not at all.\<close>

fun is_number :: "jsval \<Rightarrow> bool" where
  "is_number (JNumber n) = True"
| "is_number _ = False"

fun is_string :: "jsval \<Rightarrow> bool" where
  "is_string (JString s) = True"
| "is_string _ = False"

fun is_boolean :: "jsval \<Rightarrow> bool" where
  "is_boolean (JBoolean b) = True"
| "is_boolean _ = False"

fun absent :: "jsval \<Rightarrow> bool" where
  "absent JUndefined = True"
| "absent JNull = True"
| "absent _ = False"

definition numeric_input :: "jsval \<Rightarrow> bool" where
  "numeric_input v = (is_number v \<or> is_string v \<or> absent v)"

definition text_input :: "jsval \<Rightarrow> bool" where
  "text_input v = (is_string v \<or> absent v)"

definition well_typed_item :: "CompleteBookItem \<Rightarrow> bool" where
  "well_typed_item x =
     (numeric_input (itemId x) \<and> numeric_input (priceSales x) \<and> numeric_input (priceStandard x)
      \<and> numeric_input (categoryId x) \<and> numeric_input (salesPoint x)
      \<and> numeric_input (customerReviewRank x) \<and> numeric_input (mileage x)
      \<and> text_input (title x) \<and> text_input (author x) \<and> text_input (publisher x)
      \<and> text_input (pubDate x) \<and> text_input (description x) \<and> text_input (isbn x)
      \<and> text_input (isbn13 x) \<and> text_input (cover x) \<and> text_input (categoryName x)
      \<and> text_input (stockStatus x) \<and> text_input (mallType x) \<and> text_input (link x))"

definition canonical_item :: "CompleteBookItem \<Rightarrow> bool" where
  "canonical_item y =
     (is_number (itemId y) \<and> is_number (priceSales y) \<and> is_number (priceStandard y)
      \<and> is_number (categoryId y) \<and> is_number (salesPoint y)
      \<and> is_number (customerReviewRank y) \<and> is_number (mileage y)
      \<and> is_string (title y) \<and> is_string (author y) \<and> is_string (publisher y)
      \<and> is_string (pubDate y) \<and> is_string (description y) \<and> is_string (isbn y)
      \<and> is_string (isbn13 y) \<and> is_string (cover y) \<and> is_string (categoryName y)
      \<and> is_string (stockStatus y) \<and> is_string (mallType y) \<and> is_string (link y)
      \<and> is_boolean (adult y) \<and> is_boolean (fixedPrice y))"

text \<open>A numeric field parses when it is not a string that the parser turns into
  \<^verbatim>\<open>NaN\<close>.\<close>

definition parses :: "(string \<Rightarrow> jsnum) \<Rightarrow> jsval \<Rightarrow> bool" where
  "parses parse v = (case v of JString s \<Rightarrow> parse s \<noteq> NaN | _ \<Rightarrow> True)"

definition numeric_fields_parse :: "CompleteBookItem \<Rightarrow> bool" where
  "numeric_fields_parse x =
     (parses parseInt (itemId x) \<and> parses parseInt (priceSales x)
      \<and> parses parseInt (priceStandard x) \<and> parses parseInt (categoryId x)
      \<and> parses parseInt (salesPoint x) \<and> parses parseFloat (customerReviewRank x)
      \<and> parses parseInt (mileage x))"

text \<open>A field that was absent holds its default: 0 for a numeric field, the empty
  string for a text field.\<close>

definition default_of :: "jsval \<Rightarrow> jsval \<Rightarrow> jsval \<Rightarrow> bool" where
  "default_of d v w = (if absent v then w = d else True)"

definition defaults_applied :: "CompleteBookItem \<Rightarrow> CompleteBookItem \<Rightarrow> bool" where
  "defaults_applied x y =
     (default_of (JNumber (Finite 0)) (itemId x) (itemId y)
      \<and> default_of (JNumber (Finite 0)) (priceSales x) (priceSales y)
      \<and> default_of (JNumber (Finite 0)) (priceStandard x) (priceStandard y)
      \<and> default_of (JNumber (Finite 0)) (categoryId x) (categoryId y)
      \<and> default_of (JNumber (Finite 0)) (salesPoint x) (salesPoint y)
      \<and> default_of (JNumber (Finite 0)) (customerReviewRank x) (customerReviewRank y)
      \<and> default_of (JNumber (Finite 0)) (mileage x) (mileage y)
      \<and> default_of (JString []) (title x) (title y)
      \<and> default_of (JString []) (author x) (author y)
      \<and> default_of (JString []) (publisher x) (publisher y)
      \<and> default_of (JString []) (pubDate x) (pubDate y)
      \<and> default_of (JString []) (description x) (description y)
      \<and> default_of (JString []) (isbn x) (isbn y)
      \<and> default_of (JString []) (isbn13 x) (isbn13 y)
      \<and> default_of (JString []) (cover x) (cover y)
      \<and> default_of (JString []) (categoryName x) (categoryName y)
      \<and> default_of (JString []) (stockStatus x) (stockStatus y)
      \<and> default_of (JString []) (mallType x) (mallType y)
      \<and> default_of (JString []) (link x) (link y))"

text \<open>A response body: the item array, absent in some bodies, and the other
  properties, which normalisation does not touch.\<close>

record ApiResponse =
  item :: "CompleteBookItem list option"
  rest :: "(string \<times> jsval) list"

text \<open>\<^verbatim>\<open>normalizeSearchResponse\<close> and \<^verbatim>\<open>normalizeLookupResponse\<close> have the same body.\<close>

definition normalizeSearchResponse :: "ApiResponse \<Rightarrow> ApiResponse" where
  "normalizeSearchResponse response =
     response\<lparr>item := Some (map normalizeBookItem (case item response of None \<Rightarrow> [] | Some xs \<Rightarrow> xs))\<rparr>"

definition normalizeLookupResponse :: "ApiResponse \<Rightarrow> ApiResponse" where
  "normalizeLookupResponse response =
     response\<lparr>item := Some (map normalizeBookItem (case item response of None \<Rightarrow> [] | Some xs \<Rightarrow> xs))\<rparr>"


section \<open>The request pipeline\<close>

subsection \<open>Parameter validation\<close>

text \<open>\<^verbatim>\<open>VALIDATION_RULES\<close>.\<close>

definition MIN_START :: int where "MIN_START = 1"
definition MAX_START :: int where "MAX_START = 1000"
definition MIN_MAX_RESULTS :: int where "MIN_MAX_RESULTS = 1"
definition MAX_MAX_RESULTS :: int where "MAX_MAX_RESULTS = 50"
definition MIN_CATEGORY_ID :: int where "MIN_CATEGORY_ID = 0"
definition MAX_CATEGORY_ID :: int where "MAX_CATEGORY_ID = 99999"
definition MIN_QUERY_LENGTH :: nat where "MIN_QUERY_LENGTH = 1"
definition MAX_QUERY_LENGTH :: nat where "MAX_QUERY_LENGTH = 200"

fun param_truthy :: "param_value \<Rightarrow> bool" where
  "param_truthy (PString s) = (s \<noteq> [])"
| "param_truthy (PNumber n) = (n \<noteq> 0)"
| "param_truthy (PArray xs) = True"
| "param_truthy PUndefined = False"

text \<open>A range check \<^verbatim>\<open>if (v !== undefined) { if (v < lo || v > hi) errors.push(m) }\<close> on a
  field that the interface types \<^verbatim>\<open>number\<close>.\<close>

definition range_errors :: "param_value \<Rightarrow> int \<Rightarrow> int \<Rightarrow> string \<Rightarrow> string list" where
  "range_errors v lo hi m = (case v of PNumber n \<Rightarrow> if n < lo \<or> n > hi then [m] else [] | _ \<Rightarrow> [])"

text \<open>\<^verbatim>\<open>validateSearchParams\<close>; \<^verbatim>\<open>Query\<close> is typed \<^verbatim>\<open>string\<close>.\<close>

definition validateSearchParams :: "params \<Rightarrow> ValidationResult" where
  "validateSearchParams ps =
     (let e1 = (if \<not> param_truthy (get_prop ps ''Query'') then [''search keyword is required'']
                else (case get_prop ps ''Query'' of
                        PString q \<Rightarrow>
                          if length q < MIN_QUERY_LENGTH then [''search keyword is too short'']
                          else if length q > MAX_QUERY_LENGTH then [''search keyword is too long'']
                          else []
                      | _ \<Rightarrow> []));
          e2 = range_errors (get_prop ps ''CategoryId'') MIN_CATEGORY_ID MAX_CATEGORY_ID
                 ''category id out of range'';
          e3 = range_errors (get_prop ps ''Start'') MIN_START MAX_START ''start out of range'';
          e4 = range_errors (get_prop ps ''MaxResults'') MIN_MAX_RESULTS MAX_MAX_RESULTS
                 ''result count out of range'';
          errs = e1 @ e2 @ e3 @ e4
      in \<lparr>isValid = (length errs = 0), errors = errs\<rparr>)"

text \<open>\<^verbatim>\<open>AladinApiClient.validateIsbn\<close>, which checks the format only, and
  \<^verbatim>\<open>validateLookupParams\<close>.\<close>

definition client_validateIsbn :: "string \<Rightarrow> ValidationResult" where
  "client_validateIsbn s =
     (let errs = (if s = [] then [''ISBN is required'']
                  else if \<not> ISBN_10_PATTERN_test s \<and> \<not> ISBN_13_PATTERN_test s then
                    [''invalid ISBN format (10 or 13 digits)'']
                  else [])
      in \<lparr>isValid = (length errs = 0), errors = errs\<rparr>)"

definition validateLookupParams :: "params \<Rightarrow> ValidationResult" where
  "validateLookupParams ps =
     (let e1 = (if \<not> param_truthy (get_prop ps ''ItemId'') \<and> \<not> param_truthy (get_prop ps ''ISBN'')
                   \<and> \<not> param_truthy (get_prop ps ''ISBN13'')
                then [''one of ItemId, ISBN, ISBN13 is required''] else []);
          e2 = (case get_prop ps ''ISBN'' of
                  PString s \<Rightarrow>
                    if s \<noteq> [] \<and> \<not> isValid (client_validateIsbn s) then errors (client_validateIsbn s)
                    else []
                | _ \<Rightarrow> []);
          e3 = (case get_prop ps ''ISBN13'' of
                  PString s \<Rightarrow> if s \<noteq> [] \<and> \<not> ISBN_13_PATTERN_test s then [''invalid ISBN13 format'']
                               else []
                | _ \<Rightarrow> []);
          errs = e1 @ e2 @ e3
      in \<lparr>isValid = (length errs = 0), errors = errs\<rparr>)"

subsection \<open>The world the client acts on\<close>

text \<open>
  What a cache entry holds: a normalised response, or one item (the lookup method
  caches the first item of the response, or \<^verbatim>\<open>null\<close>).
\<close>

datatype payload = PResponse ApiResponse | PItem CompleteBookItem

text \<open>
  The state the pipeline reads and writes: the clock that \<^verbatim>\<open>Date.now()\<close> reads, the
  client's cache and circuit breaker, its TTB key, the rate limiter (a singleton), and
  the number of requests that have reached the HTTP transport. The clock moves at the
  suspension points only (a request, an awaited delay).
\<close>

record world =
  clock :: int
  cache :: "payload cache"
  breakerState :: breaker
  clientTtbKey :: string
  rateLimiter :: limiter
  httpCalls :: nat

text \<open>
  The upstream, seen from the transport: for the \<open>n\<close>-th request (from 0), its
  endpoint and its query parameters, the time the request takes and how Axios settles
  it, with a response body (a 2xx answer) or with an Axios error.
\<close>

type_synonym upstream = "nat \<Rightarrow> string \<Rightarrow> params \<Rightarrow> int \<times> (thrown + ApiResponse)"

definition ITEM_SEARCH :: string where "ITEM_SEARCH = ''ItemSearch.aspx''"
definition ITEM_LOOKUP :: string where "ITEM_LOOKUP = ''ItemLookUp.aspx''"
definition API_VERSION :: string where "API_VERSION = ''20070901''"
definition DEFAULT_OUTPUT_FORMAT :: string where "DEFAULT_OUTPUT_FORMAT = ''JS''"

text \<open>
  \<^verbatim>\<open>this.axios.get(endpoint, { params })\<close> with the two interceptors of the constructor:
  the request interceptor adds the common parameters; the response interceptor clears
  the failure count on success, and on failure notifies the circuit breaker and rejects
  with what \<^verbatim>\<open>handleApiError(error)\<close> gives.
\<close>

definition axios_get :: "upstream \<Rightarrow> string \<Rightarrow> params \<Rightarrow> world \<Rightarrow> (thrown + ApiResponse) \<times> world" where
  "axios_get up endpoint ps w =
     (let ps1 = AList.update ''Output'' (PString DEFAULT_OUTPUT_FORMAT)
                  (AList.update ''Version'' (PString API_VERSION)
                     (AList.update ''TTBKey'' (PString (clientTtbKey w)) ps));
          (duration, settled) = up (httpCalls w) endpoint ps1;
          w1 = w\<lparr>httpCalls := httpCalls w + 1, clock := clock w + duration\<rparr>
      in case settled of
           Inr response \<Rightarrow> (Inr response, w1\<lparr>breakerState := onResponseSuccess (breakerState w1)\<rparr>)
         | Inl error \<Rightarrow>
             (Inl (handleApiError (clock w1) error),
              w1\<lparr>breakerState := handleCircuitBreaker (clock w1) (breakerState w1)\<rparr>))"

text \<open>An awaited delay: the clock reads the first whole millisecond at which it has
  passed.\<close>

definition sleep :: "rat \<Rightarrow> world \<Rightarrow> world" where
  "sleep d w = w\<lparr>clock := clock w + \<lceil>d\<rceil>\<rparr>"

text \<open>\<^verbatim>\<open>checkApiRateLimit(this.ttbKey)\<close> and \<^verbatim>\<open>recordApiUsage(this.ttbKey, success, ...)\<close>
  on the limiter of the world.\<close>

definition checkApiRateLimit :: "world \<Rightarrow> thrown option \<times> world" where
  "checkApiRateLimit w =
     (let (e, L, now1) = checkRateLimit (clock w) (clientTtbKey w) (rateLimiter w)
      in (e, w\<lparr>rateLimiter := L, clock := now1\<rparr>))"

definition recordApiUsage :: "bool \<Rightarrow> world \<Rightarrow> world" where
  "recordApiUsage success w =
     w\<lparr>rateLimiter := recordApiCall (clock w) (clientTtbKey w) success (rateLimiter w)\<rparr>"

text \<open>\<^verbatim>\<open>logApiCallEnd(..., false, standardError)\<close> puts the error into the entry it
  writes, and throws as \<^verbatim>\<open>logStructuredError\<close> does.\<close>

definition logApiCallEnd :: "thrown \<Rightarrow> thrown option" where
  "logApiCallEnd error = (if has_cycle error then Some RangeError else None)"

text \<open>The \<^verbatim>\<open>catch\<close> block of \<^verbatim>\<open>searchBooks\<close> and \<^verbatim>\<open>getBookDetails\<close>: whatever was thrown
  inside the \<^verbatim>\<open>try\<close> goes through \<^verbatim>\<open>handleApiError\<close>, the failure is logged, a failed
  call is recorded, and the standard error is thrown. When \<^verbatim>\<open>handleApiError\<close> or the
  logging throws, the block ends there and nothing is recorded.\<close>

definition catch_block :: "thrown \<Rightarrow> world \<Rightarrow> thrown \<times> world" where
  "catch_block error w =
     (let standardError = handleApiError (clock w) error
      in if standardError = RangeError then (RangeError, w)
         else (case logApiCallEnd standardError of
                 Some x \<Rightarrow> (x, w)
               | None \<Rightarrow> (standardError, recordApiUsage False w)))"

subsection \<open>searchBooks and getBookDetails\<close>

definition searchBooks :: "upstream \<Rightarrow> (nat \<Rightarrow> rat) \<Rightarrow> params \<Rightarrow> world \<Rightarrow> (thrown + payload) \<times> world" where
  "searchBooks up random ps w0 =
     (let validation = validateSearchParams ps
      in if \<not> isValid validation then
           (case catch_block (handleValidationError (clock w0) validation) w0 of
              (e, w) \<Rightarrow> (Inl e, w))
         else
           let cacheKey = createCacheKey ''search'' ps;
               (cached, c1) = getFromCache (clock w0) cacheKey (cache w0);
               w1 = w0\<lparr>cache := c1\<rparr>
           in case cached of
                Some d \<Rightarrow> (Inr d, w1)
              | None \<Rightarrow>
                  (case checkApiRateLimit w1 of
                     (Some e, w2) \<Rightarrow> (case catch_block e w2 of (e', w) \<Rightarrow> (Inl e', w))
                   | (None, w2) \<Rightarrow>
                       (case checkCircuitBreaker (clock w2) (breakerState w2) of
                          Inl e \<Rightarrow> (case catch_block e w2 of (e', w) \<Rightarrow> (Inl e', w))
                        | Inr b \<Rightarrow>
                            (case retryRequest (axios_get up ITEM_SEARCH ps) random sleep
                                    MAX_RETRIES (w2\<lparr>breakerState := b\<rparr>) of
                               ((Inl e, w4), n) \<Rightarrow>
                                 (case catch_block e w4 of (e', w) \<Rightarrow> (Inl e', w))
                             | ((Inr response, w4), n) \<Rightarrow>
                                 let d = PResponse (normalizeSearchResponse response);
                                     w5 = w4\<lparr>cache := setCache (clock w4) cacheKey (Some d)
                                                         SEARCH_TTL (cache w4)\<rparr>
                                 in (Inr d, recordApiUsage True w5)))))"

definition getBookDetails ::
  "upstream \<Rightarrow> (nat \<Rightarrow> rat) \<Rightarrow> params \<Rightarrow> world \<Rightarrow> (thrown + payload option) \<times> world" where
  "getBookDetails up random ps w0 =
     (let validation = validateLookupParams ps
      in if \<not> isValid validation then
           (case catch_block (handleValidationError (clock w0) validation) w0 of
              (e, w) \<Rightarrow> (Inl e, w))
         else
           let cacheKey = createCacheKey ''lookup'' ps;
               (cached, c1) = getFromCache (clock w0) cacheKey (cache w0);
               w1 = w0\<lparr>cache := c1\<rparr>
           in case cached of
                Some d \<Rightarrow> (Inr (Some d), w1)
              | None \<Rightarrow>
                  (case checkApiRateLimit w1 of
                     (Some e, w2) \<Rightarrow> (case catch_block e w2 of (e', w) \<Rightarrow> (Inl e', w))
                   | (None, w2) \<Rightarrow>
                       (case checkCircuitBreaker (clock w2) (breakerState w2) of
                          Inl e \<Rightarrow> (case catch_block e w2 of (e', w) \<Rightarrow> (Inl e', w))
                        | Inr b \<Rightarrow>
                            (case retryRequest (axios_get up ITEM_LOOKUP ps) random sleep
                                    MAX_RETRIES (w2\<lparr>breakerState := b\<rparr>) of
                               ((Inl e, w4), n) \<Rightarrow>
                                 (case catch_block e w4 of (e', w) \<Rightarrow> (Inl e', w))
                             | ((Inr response, w4), n) \<Rightarrow>
                                 let d = (case item (normalizeLookupResponse response) of
                                            Some (x # xs) \<Rightarrow> Some (PItem x)
                                          | _ \<Rightarrow> None);
                                     w5 = w4\<lparr>cache := setCache (clock w4) cacheKey d
                                                         LOOKUP_TTL (cache w4)\<rparr>
                                 in (Inr d, recordApiUsage True w5)))))"

section \<open>Sequences of calls\<close>




section \<open>Concrete inputs\<close>







text \<open>A key that has used up its daily quota on 15 January 2024 (instant
  1705276800000, midnight UTC), seen again on 15 February 2024 (instant 1707955200000)
  with no reset in between.\<close>

definition usage_january :: TtbKeyUsage where
  "usage_january =
     \<lparr>ttbKey = ''ttbexample.key'', dailyCount = 5000, dailyLimit = 5000,
      lastReset = 1705276800000, lastCall = 1705276800000, lastValidation = 1705276800000,
      usageIsValid = True, requestHistory = [], totalRequests = 5000,
      successfulRequests = 5000, failedRequests = 0\<rparr>"

definition limiter_january :: limiter where
  "limiter_january =
     \<lparr>ttbKeyUsages = [(''ttbexample.key'', usage_january)], rateLimitStates = [],
      globalDailyCount = 5000, globalLastReset = 1705276800000,
      globalLastCall = 1705276800000, zoneOffset = 0\<rparr>"

text \<open>Upstream items: one with no property at all, one with title and a numeric
  string for the price, one whose price is the text \<^verbatim>\<open>N/A\<close>.\<close>

definition item_blank :: CompleteBookItem where
  "item_blank =
     \<lparr>itemId = JUndefined, title = JUndefined, link = JUndefined, author = JUndefined,
      pubDate = JUndefined, description = JUndefined, isbn = JUndefined, isbn13 = JUndefined,
      priceSales = JUndefined, priceStandard = JUndefined, mallType = JUndefined,
      stockStatus = JUndefined, mileage = JUndefined, cover = JUndefined,
      categoryId = JUndefined, categoryName = JUndefined, publisher = JUndefined,
      salesPoint = JUndefined, adult = JUndefined, fixedPrice = JUndefined,
      customerReviewRank = JUndefined, bestDuration = JUndefined, bestRank = JUndefined,
      subInfo = JUndefined, others = []\<rparr>"

definition item_priced :: CompleteBookItem where
  "item_priced = item_blank\<lparr>title := JString ''Clean Code'', priceSales := JString ''29700''\<rparr>"

definition item_unpriced :: CompleteBookItem where
  "item_unpriced = item_blank\<lparr>title := JString ''Clean Code'', priceSales := JString ''N/A''\<rparr>"

text \<open>
  A client ready to call: empty cache, closed breaker, a validated key with nothing
  recorded, no request sent yet. The upstream has no such book: every request takes
  20 ms and answers 200 with an empty item array. \<open>world_after_lookup\<close> is the state
  one lookup leaves.
\<close>

definition lookup_params :: params where
  "lookup_params = [(''ItemId'', PString ''999'')]"

definition upstream_no_such_book :: upstream where
  "upstream_no_such_book n endpoint ps = (20, Inr \<lparr>item = Some [], rest = []\<rparr>)"

definition world_ready :: world where
  "world_ready =
     \<lparr>clock = 1500, cache = [],
      breakerState = \<lparr>circuitBreakerFailures = 0, circuitBreakerLastFailure = None\<rparr>,
      clientTtbKey = ''ttbexample.key'',
      rateLimiter =
        \<lparr>ttbKeyUsages =
           [(''ttbexample.key'',
             \<lparr>ttbKey = ''ttbexample.key'', dailyCount = 0, dailyLimit = 5000, lastReset = 0,
              lastCall = 0, lastValidation = 1000, usageIsValid = True, requestHistory = [],
              totalRequests = 0, successfulRequests = 0, failedRequests = 0\<rparr>)],
         rateLimitStates =
           [(''ttbexample.key'',
             \<lparr>isBlocked = False, nextAllowedTime = 0, currentDelay = 200, burstCount = 0,
              lastBurstReset = 1000\<rparr>)],
         globalDailyCount = 0, globalLastReset = 0, globalLastCall = 0, zoneOffset = 0\<rparr>,
      httpCalls = 0\<rparr>"

definition world_after_lookup :: world where
  "world_after_lookup =
     \<lparr>clock = 1520,
      cache = [(createCacheKey ''lookup'' lookup_params,
                \<lparr>data = None, timestamp = 1520, ttl = LOOKUP_TTL\<rparr>)],
      breakerState = \<lparr>circuitBreakerFailures = 0, circuitBreakerLastFailure = None\<rparr>,
      clientTtbKey = ''ttbexample.key'',
      rateLimiter =
        \<lparr>ttbKeyUsages =
           [(''ttbexample.key'',
             \<lparr>ttbKey = ''ttbexample.key'', dailyCount = 1, dailyLimit = 5000, lastReset = 0,
              lastCall = 1520, lastValidation = 1000, usageIsValid = True,
              requestHistory = [1520],
              totalRequests = 1, successfulRequests = 1, failedRequests = 0\<rparr>)],
         rateLimitStates =
           [(''ttbexample.key'',
             \<lparr>isBlocked = False, nextAllowedTime = 0, currentDelay = 200, burstCount = 1,
              lastBurstReset = 1000\<rparr>)],
         globalDailyCount = 1, globalLastReset = 0, globalLastCall = 1520, zoneOffset = 0\<rparr>,
      httpCalls = 1\<rparr>"

text \<open>
  An upstream that answers every request after 30 ms with HTTP 500: Axios settles the
  request with an error that holds the response (a text body, no upstream error code),
  the code \<^verbatim>\<open>ERR_BAD_RESPONSE\<close>, and the request and response objects of the HTTP
  adapter. A client one failure short of the breaker threshold.
\<close>

definition search_params :: params where
  "search_params = [(''Query'', PString ''clean code'')]"

definition error_500 :: thrown where
  "error_500 =
     AxiosError (Some \<lparr>status = 500, responseData = None\<rparr>) (Some ''ERR_BAD_RESPONSE'')
       ''Request failed with status code 500'' True"

definition error_400 :: thrown where
  "error_400 =
     AxiosError (Some \<lparr>status = 400, responseData = None\<rparr>) (Some ''ERR_BAD_REQUEST'')
       ''Request failed with status code 400'' True"

definition upstream_always_500 :: upstream where
  "upstream_always_500 n endpoint ps = (30, Inl error_500)"

definition world_four_failures :: world where
  "world_four_failures =
     world_ready\<lparr>breakerState :=
       \<lparr>circuitBreakerFailures = 4, circuitBreakerLastFailure = Some 1400\<rparr>\<rparr>"

text \<open>The same client with an open breaker: five failures, the last at 1400.\<close>

definition world_open :: world where
  "world_open =
     world_ready\<lparr>breakerState :=
       \<lparr>circuitBreakerFailures = 5, circuitBreakerLastFailure = Some 1400\<rparr>\<rparr>"

section \<open>Properties of the ISBN validators\<close>

lemma list10: "length s = 10 \<Longrightarrow> \<exists>a b c d e f g h i j. s = [a, b, c, d, e, f, g, h, i, j]"
  by (auto simp: length_Suc_conv numeral_eq_Suc)

lemma list13:
  "length s = 13 \<Longrightarrow> \<exists>a b c d e f g h i j k l m. s = [a, b, c, d, e, f, g, h, i, j, k, l, m]"
  by (auto simp: length_Suc_conv numeral_eq_Suc)

lemma upt9: "[0..<9] = [0, 1, 2, 3, 4, 5, 6, 7, 8]"
  by (simp add: upt_rec)

lemma upt12: "[0..<12] = [0, 1, 2, 3, 4, 5, 6, 7, 8, 9, 10, 11]"
  by (simp add: upt_rec)

lemma String_nat_small: "n < 10 \<Longrightarrow> String_nat n = [char_of (48 + n)]"
  by (subst String_nat.simps) simp

lemma mod10_zero: "n < 20 \<Longrightarrow> (n mod 10 = 0) = (n = 0 \<or> n = (10::nat))"
  by (cases "n < 10") (auto simp: mod_if)

lemma check13: "d < 10 \<Longrightarrow> (d = (10 - (x mod 10)) mod 10) = ((x + d) mod 10 = (0::nat))"
proof -
  assume d: "d < 10"
  define r where "r = x mod 10"
  have r: "r < 10" by (simp add: r_def)
  have e: "(x + d) mod 10 = (r + d) mod 10" unfolding r_def by (simp add: mod_add_left_eq)
  have z: "((r + d) mod 10 = 0) = (r + d = 0 \<or> r + d = 10)"
    using r d by (intro mod10_zero) simp
  have l: "(10 - r) mod 10 = (if r = 0 then 0 else 10 - r)" using r by simp
  have "(d = (10 - r) mod 10) = (r + d = 0 \<or> r + d = 10)"
    unfolding l using r d by auto
  then show ?thesis unfolding e z r_def [symmetric] by simp
qed

lemma isbn10_sum:
  "length s = 10 \<Longrightarrow>
   fold (\<lambda>i sum. sum + map Number_digit (take 9 s) ! i * (10 - i)) [0..<9] 0
   = sum_list (map2 (\<lambda>c w. Number_digit c * w) (take 9 s) isbn10_weights)"
proof -
  assume "length s = 10"
  then obtain a b c d e f g h i j where s: "s = [a, b, c, d, e, f, g, h, i, j]"
    by (auto dest!: list10)
  show ?thesis unfolding s upt9 isbn10_weights_def by simp
qed

lemma isbn13_sum:
  "length s = 13 \<Longrightarrow>
   fold (\<lambda>i sum. sum + map Number_digit s ! i * (if i mod 2 = 0 then 1 else 3)) [0..<12] 0
     + map Number_digit s ! 12
   = sum_list (map2 (\<lambda>c w. Number_digit c * w) s isbn13_weights)"
proof -
  assume "length s = 13"
  then obtain a b c d e f g h i j k l m where s: "s = [a, b, c, d, e, f, g, h, i, j, k, l, m]"
    by (auto dest!: list13)
  show ?thesis unfolding s upt12 isbn13_weights_def by simp
qed

lemma digit_lt10: "is_digit c \<Longrightarrow> Number_digit c < 10"
  unfolding is_digit_def Number_digit_def less_eq_char_def by simp arith

lemma expected_check_char:
  "r < 11 \<Longrightarrow>
   (if r = 0 then ''0'' else if r = 1 then ''X'' else String_nat (11 - r)) = [isbn10_check_char r]"
  by (simp add: isbn10_check_char_def String_nat_small)

lemma validateIsbn10_iff: "isValid (validateIsbn10 s) = isbn10_spec s"
proof (cases "ISBN_10_PATTERN_test s")
  case False
  then show ?thesis by (simp add: validateIsbn10_def isbn10_spec_def)
next
  case True
  then have len: "length s = 10" by (simp add: ISBN_10_PATTERN_test_def)
  then have ne: "s \<noteq> []" by auto
  have r: "isbn10_remainder s < 11" by (simp add: isbn10_remainder_def)
  have "isValid (validateIsbn10 s) = ([s ! 9] = [isbn10_check_char (isbn10_remainder s)])"
    unfolding validateIsbn10_def Let_def isbn10_sum [OF len] isbn10_remainder_def [symmetric]
      expected_check_char [OF r]
    using True ne by simp
  then show ?thesis using True by (simp add: isbn10_spec_def)
qed

lemma validateIsbn13_iff: "isValid (validateIsbn13 s) = isbn13_spec s"
proof (cases "ISBN_13_PATTERN_test s")
  case False
  then show ?thesis by (simp add: validateIsbn13_def isbn13_spec_def)
next
  case True
  then have len: "length s = 13" and dig: "list_all is_digit s"
    by (simp_all add: ISBN_13_PATTERN_test_def)
  then have ne: "s \<noteq> []" by auto
  have "is_digit (s ! 12)" using dig len by (simp add: list_all_length)
  then have d: "map Number_digit s ! 12 < 10" using len by (simp add: digit_lt10)
  have "isValid (validateIsbn13 s) =
        (map Number_digit s ! 12 =
           (10 - fold (\<lambda>i sum. sum + map Number_digit s ! i * (if i mod 2 = 0 then 1 else 3))
                   [0..<12] 0 mod 10) mod 10)"
    unfolding validateIsbn13_def Let_def using True ne by simp
  also have "\<dots> = (sum_list (map2 (\<lambda>c w. Number_digit c * w) s isbn13_weights) mod 10 = 0)"
    unfolding check13 [OF d] isbn13_sum [OF len] ..
  finally show ?thesis using True by (simp add: isbn13_spec_def)
qed

lemma isbn10_examples:
  "isValid (validateIsbn10 ''0747532699'')" "\<not> isValid (validateIsbn10 ''0747532698'')"
  by code_simp+

lemma isbn13_examples:
  "isValid (validateIsbn13 ''9780747532699'')" "\<not> isValid (validateIsbn13 ''9780747532690'')"
  by code_simp+

text \<open>
  Claim C8. \<^verbatim>\<open>validateIsbn10\<close> accepts a string exactly when it matches
  \<^verbatim>\<open>^\d{9}[\dX]$\<close> and its check character is the one the weighted sum modulo 11
  prescribes (weights 10 down to 2; \<open>0\<close> for remainder 0, \<open>X\<close> for remainder 1, the digit
  \<open>11 - remainder\<close> otherwise); \<^verbatim>\<open>validateIsbn13\<close> accepts a string exactly when it
  matches \<^verbatim>\<open>^\d{13}$\<close> and its digits, weighted 1 and 3 in turn, sum to a multiple of 10.
  \<^verbatim>\<open>0747532699\<close> and \<^verbatim>\<open>9780747532699\<close> are accepted, \<^verbatim>\<open>0747532698\<close> and
  \<^verbatim>\<open>9780747532690\<close> are rejected.
\<close>

theorem C8_isbn_validators:
  "isValid (validateIsbn10 s) = isbn10_spec s
   \<and> isValid (validateIsbn13 t) = isbn13_spec t
   \<and> isValid (validateIsbn10 ''0747532699'')
   \<and> \<not> isValid (validateIsbn10 ''0747532698'')
   \<and> isValid (validateIsbn13 ''9780747532699'')
   \<and> \<not> isValid (validateIsbn13 ''9780747532690'')"
  using validateIsbn10_iff [of s] validateIsbn13_iff [of t] isbn10_examples isbn13_examples
  by blast

section \<open>Properties of the retry loop\<close>

text \<open>Called with a request function that rejects with errors \<^verbatim>\<open>isRetryableError\<close>
  accepts, the loop goes through all its attempts; it gives up at once on any other
  error.\<close>

lemma retryRequest_resolves:
  "requestFn s = (Inr r, s') \<Longrightarrow> retryRequest requestFn random pause retries s = ((Inr r, s'), 1)"
  by (subst retryRequest.simps) simp

lemma retryRequest_gives_up:
  "requestFn s = (Inl e, s') \<Longrightarrow> \<not> (retries > 0 \<and> isRetryableError e) \<Longrightarrow>
   retryRequest requestFn random pause retries s = ((Inl e, s'), 1)"
  by (subst retryRequest.simps) (auto simp add: Let_def)

lemma retryRequest_retries:
  "requestFn s = (Inl e, s') \<Longrightarrow> retries > 0 \<Longrightarrow> isRetryableError e \<Longrightarrow>
   retryRequest requestFn random pause retries s =
     (let attempt = MAX_RETRIES - retries + 1;
          baseDelay = RETRY_DELAY * RETRY_MULTIPLIER ^ (attempt - 1);
          jitter = random attempt * (1 / 10) * baseDelay;
          delay = min (baseDelay + jitter) MAX_RETRY_DELAY;
          (res, n) = retryRequest requestFn random pause (retries - 1) (pause delay s')
      in (res, Suc n))"
  by (subst retryRequest.simps) (simp add: Let_def)

lemma retry_always_failing:
  assumes "\<forall>s. \<exists>e s'. requestFn s = (Inl e, s') \<and> isRetryableError e"
  shows "\<exists>e s'. retryRequest requestFn random pause retries s = ((Inl e, s'), retries + 1)
           \<and> isRetryableError e"
proof (induction retries arbitrary: s)
  case 0
  from assms obtain e s' where f: "requestFn s = (Inl e, s')" and r: "isRetryableError e"
    by blast
  show ?case using retryRequest_gives_up [where requestFn = requestFn and s = s and retries = 0] f r by auto
next
  case (Suc k)
  from assms obtain e s' where f: "requestFn s = (Inl e, s')" and r: "isRetryableError e"
    by blast
  define d where "d = min (RETRY_DELAY * RETRY_MULTIPLIER ^ (MAX_RETRIES - Suc k + 1 - 1)
      + random (MAX_RETRIES - Suc k + 1) * (1 / 10) * (RETRY_DELAY * RETRY_MULTIPLIER ^ (MAX_RETRIES - Suc k + 1 - 1)))
      MAX_RETRY_DELAY"
  from Suc.IH [of "pause d s'"] obtain e2 s2 where
    ih: "retryRequest requestFn random pause k (pause d s') = ((Inl e2, s2), k + 1)"
    and r2: "isRetryableError e2" by blast
  have "retryRequest requestFn random pause (Suc k) s = ((Inl e2, s2), Suc k + 1)"
    using retryRequest_retries [where requestFn = requestFn and s = s and retries = "Suc k" and random = random and pause = pause] f r ih
    by (simp add: Let_def d_def)
  then show ?case using r2 by blast
qed

text \<open>
  The request functions of the client are \<^verbatim>\<open>() => this.axios.get(...)\<close>. Their failures
  have passed the response interceptor, which rejects with what \<^verbatim>\<open>handleApiError\<close>
  makes of the Axios error: a \<^verbatim>\<open>StandardError\<close>, or the \<^verbatim>\<open>RangeError\<close> of the logging.
  \<^verbatim>\<open>isRetryableError\<close> accepts neither, so the loop ends after the first invocation,
  whatever the upstream answers.
\<close>

lemma logged_cases: "logged e ctx = e \<or> logged e ctx = RangeError"
  by (simp add: logged_def logStructuredError_def)

lemma not_retryable_logged:
  "\<not> isRetryableError (logged (createStandardError now c m orig) ctx)"
  using logged_cases [of "createStandardError now c m orig" ctx]
  by (auto simp: isRetryableError_def createStandardError_def)

lemma handleApiError_not_retryable: "\<not> isRetryableError (handleApiError now e)"
proof -
  have g: "\<not> isRetryableError (handleGenericError now x ctx)" for x ctx
    by (simp add: handleGenericError_def not_retryable_logged)
  have s: "\<not> isRetryableError (createStandardError now c m orig)" for c m orig
    by (simp add: isRetryableError_def createStandardError_def)
  have a: "\<not> isRetryableError (handleAladinApiError now b)" for b
    by (simp add: handleAladinApiError_def not_retryable_logged s split: option.splits)
  have n: "\<not> isRetryableError (handleNetworkError now x c)" for x c
    by (simp add: handleNetworkError_def not_retryable_logged s split: option.splits)
  have h: "\<not> isRetryableError (handleHttpStatusError now st b)" for st b
    by (simp add: handleHttpStatusError_def not_retryable_logged s split: option.splits prod.splits)
  show ?thesis
    by (cases e) (simp_all add: handleApiError_def Let_def g a n h)
qed

lemma retry_axios_once:
  "retryRequest (axios_get up endpoint ps) random pause retries w = (axios_get up endpoint ps w, 1)"
proof (cases "fst (axios_get up endpoint ps w)")
  case (Inr r)
  then have "axios_get up endpoint ps w = (Inr r, snd (axios_get up endpoint ps w))"
    by (metis prod.collapse)
  then show ?thesis using retryRequest_resolves [of "axios_get up endpoint ps" w r] by simp
next
  case (Inl e)
  then have eq: "axios_get up endpoint ps w = (Inl e, snd (axios_get up endpoint ps w))"
    by (metis prod.collapse)
  have "\<not> isRetryableError e"
    using Inl handleApiError_not_retryable
    by (auto simp: axios_get_def Let_def split: prod.splits sum.splits)
  then show ?thesis
    using retryRequest_gives_up [where requestFn = "axios_get up endpoint ps" and s = w and e = e] eq
    by simp
qed

lemma axios_get_counts: "httpCalls (snd (axios_get up endpoint ps w)) = httpCalls w + 1"
  by (simp add: axios_get_def Let_def split: prod.splits sum.splits)

section \<open>Properties of the cache\<close>

lemma map_of_setCache:
  "map_of (setCache now key d t c) key = Some \<lparr>data = d, timestamp = now, ttl = t\<rparr>"
  by (simp add: setCache_def Let_def update_conv')

text \<open>
  Claim C4, as the code has it. The expiry test is \<^verbatim>\<open>Date.now() - entry.timestamp > entry.ttl\<close>:
  an entry stored at \<open>t0\<close> with time to live \<open>T\<close> is returned by every read at
  \<open>t0 \<le> t \<le> t0 + T\<close>, the instant \<open>t0 + T\<close> included, and the cache is left as it
  is; a read at \<open>t > t0 + T\<close> returns null and removes the entry.
\<close>

theorem C4_cache_ttl:
  "(t0 \<le> t \<and> t \<le> t0 + T \<longrightarrow>
      getFromCache t key (setCache t0 key d T c) = (d, setCache t0 key d T c))
   \<and> (t > t0 + T \<longrightarrow>
        getFromCache t key (setCache t0 key d T c) = (None, AList.delete key (setCache t0 key d T c))
        \<and> map_of (AList.delete key (setCache t0 key d T c)) key = None)"
  by (auto simp: getFromCache_def map_of_setCache delete_conv')

theorem C4_cache_ttl_witness:
  "getFromCache 299999 ''k'' (setCache 0 ''k'' (Some (7::nat)) 300000 [])
     = (Some 7, [(''k'', \<lparr>data = Some 7, timestamp = 0, ttl = 300000\<rparr>)])
   \<and> getFromCache 300001 ''k'' (setCache 0 ''k'' (Some (7::nat)) 300000 []) = (None, [])"
  using C4_cache_ttl [of 0 299999 300000 "''k''" "Some (7::nat)" "[]"]
    C4_cache_ttl [of 0 300001 300000 "''k''" "Some (7::nat)" "[]"]
  by (simp add: setCache_def MAX_CACHE_SIZE_def AList.delete_eq)

text \<open>The claim as stated puts the instant \<open>t0 + T\<close> on the expired side. There the
  read still returns the value and keeps the entry.\<close>

theorem C4_expiry_boundary_counterexample:
  "getFromCache (0 + 300000) ''k'' (setCache 0 ''k'' (Some (7::nat)) 300000 [])
     = (Some 7, [(''k'', \<lparr>data = Some 7, timestamp = 0, ttl = 300000\<rparr>)])"
  by (simp add: getFromCache_def setCache_def MAX_CACHE_SIZE_def)

section \<open>Properties of the daily quota\<close>

lemma recordApiCall_dailyCount:
  "dailyCount_of key (recordApiCall now key success L) = dailyCount_of key L + 1"
  by (cases "map_of (ttbKeyUsages L) key")
    (simp_all add: recordApiCall_def getTtbKeyUsage_def put_usage_def dailyCount_of_def Let_def
      new_usage_def update_conv')

lemma recordApiCall_requestHistory:
  "requestHistory_of key (recordApiCall now key success L) =
     filter (\<lambda>t. now - t \<le> 60000) (requestHistory_of key L @ [now])"
  by (cases "map_of (ttbKeyUsages L) key")
    (simp_all add: recordApiCall_def getTtbKeyUsage_def put_usage_def requestHistory_of_def Let_def
      new_usage_def update_conv')

lemma checkDailyLimit_lazy_reset:
  "getDate tz now \<noteq> getDate tz (lastReset usage) \<Longrightarrow>
   dailyCount (snd (checkDailyLimit tz now usage)) = 0"
  by (simp add: checkDailyLimit_def resetDailyUsage_def Let_def)

lemma checkDailyLimit_same_day:
  "getDate tz now = getDate tz (lastReset usage) \<Longrightarrow>
   dailyCount (snd (checkDailyLimit tz now usage)) = dailyCount usage"
  by (simp add: checkDailyLimit_def Let_def)

lemma map_of_map_reset:
  "map_of (map (\<lambda>(k, u). (k, f u)) xs) key = map_option f (map_of xs key)"
  by (induction xs) auto

lemma dailyResetTimer_dailyCount: "dailyCount_of key (dailyResetTimer now L) = 0"
  by (cases "map_of (ttbKeyUsages L) key")
    (simp_all add: dailyResetTimer_def dailyCount_of_def map_of_map_reset resetDailyUsage_def)

lemma january_february_dates:
  "calendar_date 0 1705276800000 = (2024, 1, 15)" "calendar_date 0 1707955200000 = (2024, 2, 15)"
  "calendar_date 32400000 1705276800000 = (2024, 1, 15)"
  "calendar_date 32400000 1707955200000 = (2024, 2, 15)"
  by code_simp+

text \<open>
  Claim C5, at an input where the code departs from it. \<^verbatim>\<open>recordApiCall\<close> adds exactly
  1 to the daily count of the key (\<open>recordApiCall_dailyCount\<close>), and the midnight timer
  zeroes it (\<open>dailyResetTimer_dailyCount\<close>). The lazy check, however, compares
  \<^verbatim>\<open>getDate()\<close>, the day of the month: it resets when the day of the month differs
  (\<open>checkDailyLimit_lazy_reset\<close>), and not when the date has changed to the same day
  of another month. A key that exhausted its quota on 15 January 2024 and is seen next
  on 15 February 2024 is still compared with its count of 5000, and the check throws
  \<^verbatim>\<open>DAILY_LIMIT_EXCEEDED\<close>. The two instants are midnight UTC; the dates are the same
  in a process running on UTC (offset 0) and in one running on Korean time (offset
  32400000 ms).
\<close>

theorem C5_lazy_reset_misses_same_day_of_month:
  "calendar_date 0 (lastReset usage_january) = (2024, 1, 15)
   \<and> calendar_date 0 1707955200000 = (2024, 2, 15)
   \<and> dailyCount (snd (checkDailyLimit 0 1707955200000 usage_january)) = 5000
   \<and> map_option thrown_code (fst (checkDailyLimit 0 1707955200000 usage_january))
       = Some (Some DAILY_LIMIT_EXCEEDED)
   \<and> map_option thrown_code (fst (checkRateLimit 1707955200000 ''ttbexample.key'' limiter_january))
       = Some (Some DAILY_LIMIT_EXCEEDED)
   \<and> calendar_date 32400000 (lastReset usage_january) = (2024, 1, 15)
   \<and> calendar_date 32400000 1707955200000 = (2024, 2, 15)
   \<and> dailyCount (snd (checkDailyLimit 32400000 1707955200000 usage_january)) = 5000
   \<and> map_option thrown_code (fst (checkDailyLimit 32400000 1707955200000 usage_january))
       = Some (Some DAILY_LIMIT_EXCEEDED)"
proof -
  have d: "getDate tz 1707955200000 = getDate tz (lastReset usage_january)"
    if "tz = 0 \<or> tz = 32400000" for tz
    using that january_february_dates by (auto simp: getDate_def usage_january_def)
  have c: "checkDailyLimit tz 1707955200000 usage_january =
           (Some (handleApiLimitExceeded 1707955200000 5000 5000), usage_january)"
    if "tz = 0 \<or> tz = 32400000" for tz
    using d [OF that] by (simp add: checkDailyLimit_def Let_def) (simp add: usage_january_def)
  have r: "fst (checkRateLimit 1707955200000 ''ttbexample.key'' limiter_january)
           = Some (handleApiLimitExceeded 1707955200000 5000 5000)"
    using c [of 0] by (simp add: checkRateLimit_def getTtbKeyUsage_def getRateLimitState_def
        limiter_january_def Let_def)
  have e: "thrown_code (handleApiLimitExceeded 1707955200000 5000 5000) = Some DAILY_LIMIT_EXCEEDED"
    by (simp add: handleApiLimitExceeded_def createStandardError_def logged_def
        logStructuredError_def)
  have u: "lastReset usage_january = 1705276800000" "dailyCount usage_january = 5000"
    by (simp_all add: usage_january_def)
  show ?thesis
    using january_february_dates
    by (simp add: c [of 0] c [of 32400000] r e u)
qed

section \<open>Properties of the cache key\<close>

lemma assign_fold:
  "distinct ks \<Longrightarrow> set ks \<inter> fst ` set acc = {} \<Longrightarrow>
   fold (\<lambda>key result. assign key (f key) result) ks acc
     = acc @ map (\<lambda>k. (k, f k)) (filter (\<lambda>k. k \<noteq> ''__proto__'') ks)"
proof (induction ks arbitrary: acc)
  case Nil
  then show ?case by simp
next
  case (Cons k ks)
  show ?case
  proof (cases "k = ''__proto__''")
    case True
    then show ?thesis using Cons.IH [of acc] Cons.prems by (simp add: assign_def)
  next
    case False
    have u: "AList.update k (f k) acc = acc @ [(k, f k)]"
      using Cons.prems(2) by (induction acc) auto
    have "set ks \<inter> fst ` set (acc @ [(k, f k)]) = {}"
      using Cons.prems by auto
    with Cons.IH [of "acc @ [(k, f k)]"] Cons.prems(1) u False show ?thesis
      by (simp add: assign_def)
  qed
qed

lemma set_own_properties: "set (own_properties obj) = set obj"
  by (auto simp: own_properties_def)

lemma distinct_own_properties:
  assumes "distinct (map fst obj)"
  shows "distinct (map fst (own_properties obj))"
proof -
  from assms have d: "distinct obj" and i: "inj_on fst (set obj)"
    by (simp_all add: distinct_map)
  have "distinct (own_properties obj)"
    using d by (auto simp: own_properties_def)
  then show ?thesis
    using i by (simp add: distinct_map set_own_properties)
qed

lemma sort_Object_keys:
  assumes "distinct (map fst ps)"
  shows "sort (Object_keys ps) = sort (map fst ps)"
proof -
  have "set (map fst (own_properties ps)) = set (map fst ps)"
    by (simp add: set_own_properties)
  then show ?thesis
    unfolding Object_keys_def
    using assms distinct_own_properties [OF assms]
    by (intro sorted_distinct_set_unique) simp_all
qed

lemma no_proto:
  "''__proto__'' \<notin> fst ` set ps \<Longrightarrow>
   filter (\<lambda>k. k \<noteq> ''__proto__'') (sort (map fst ps)) = sort (map fst ps)"
proof -
  assume "''__proto__'' \<notin> fst ` set ps"
  then have "''__proto__'' \<notin> set (sort (map fst ps))" by simp
  then show ?thesis by (intro filter_True) metis
qed

lemma sortedParams_eq:
  "distinct (map fst ps) \<Longrightarrow>
   sortedParams ps =
     map (\<lambda>k. (k, get_prop ps k)) (filter (\<lambda>k. k \<noteq> ''__proto__'') (sort (map fst ps)))"
  unfolding sortedParams_def
  by (subst assign_fold) (simp_all add: sort_Object_keys)

lemma same_fields_same_names:
  assumes "distinct (map fst p1)" "distinct (map fst p2)" "set p1 = set p2"
  shows "sort (map fst p1) = sort (map fst p2)"
proof -
  have "set (map fst p1) = set (map fst p2)" using assms(3) by simp
  then show ?thesis
    using assms(1,2) by (intro sorted_distinct_set_unique) simp_all
qed

lemma same_fields_same_values:
  assumes "distinct (map fst p1)" "distinct (map fst p2)" "set p1 = set p2"
  shows "map_of p1 = map_of p2"
  using assms by (rule map_of_inject_set [THEN iffD2])

lemma same_fields_same_object:
  assumes "distinct (map fst p1)" "distinct (map fst p2)" "set p1 = set p2"
  shows "sortedParams p1 = sortedParams p2"
  using same_fields_same_names [OF assms] same_fields_same_values [OF assms] assms(1,2)
  by (simp add: sortedParams_eq get_prop_def)

lemma map_of_graph: "map_of (map (\<lambda>k. (k, f k)) ks) k = (if k \<in> set ks then Some (f k) else None)"
  by (induction ks) auto

lemma sortedParams_holds_the_parameters:
  assumes "distinct (map fst ps)" "''__proto__'' \<notin> fst ` set ps"
  shows "map_of (sortedParams ps) = map_of ps"
proof
  fix k
  have f: "filter (\<lambda>k. k \<noteq> ''__proto__'') (sort (map fst ps)) = sort (map fst ps)"
    using assms(2) by (rule no_proto)
  show "map_of (sortedParams ps) k = map_of ps k"
  proof (cases "map_of ps k")
    case None
    then have "k \<notin> fst ` set ps" by (simp add: map_of_eq_None_iff)
    then show ?thesis
      using None by (simp add: sortedParams_eq [OF assms(1)] f map_of_graph)
  next
    case (Some v)
    then have "k \<in> fst ` set ps" by (metis map_of_eq_None_iff option.distinct(1))
    then show ?thesis
      using Some by (simp add: sortedParams_eq [OF assms(1)] f map_of_graph get_prop_def)
  qed
qed

lemma own_properties_plain:
  "\<forall>k \<in> fst ` set obj. \<not> is_array_index k \<Longrightarrow> own_properties obj = obj"
proof -
  assume a: "\<forall>k \<in> fst ` set obj. \<not> is_array_index k"
  have "filter (\<lambda>(k, v). is_array_index k) obj = []"
    using a by (auto simp: filter_empty_conv)
  moreover have "filter (\<lambda>(k, v). \<not> is_array_index k) obj = obj"
    using a by (intro filter_True) auto
  ultimately show ?thesis by (simp add: own_properties_def)
qed

lemma createCacheKey_plain:
  assumes "distinct (map fst ps)" "''__proto__'' \<notin> fst ` set ps"
    and "\<forall>k \<in> fst ` set ps. \<not> is_array_index k"
  shows "createCacheKey endpoint ps =
     KEY_PREFIX @ '':'' @ endpoint @ '':''
       @ JSON_object (map (\<lambda>k. (k, get_prop ps k)) (sort (map fst ps)))"
proof -
  have f: "filter (\<lambda>k. k \<noteq> ''__proto__'') (sort (map fst ps)) = sort (map fst ps)"
    using assms(2) by (rule no_proto)
  have s: "sortedParams ps = map (\<lambda>k. (k, get_prop ps k)) (sort (map fst ps))"
    by (simp add: sortedParams_eq [OF assms(1)] f)
  have "\<forall>k \<in> fst ` set (sortedParams ps). \<not> is_array_index k"
    unfolding s using assms(3) by (auto simp: image_iff)
  then have "own_properties (sortedParams ps) = sortedParams ps"
    by (rule own_properties_plain)
  then show ?thesis
    by (simp add: createCacheKey_def JSON_stringify_def s)
qed

text \<open>A name that is an array index is enumerated before the others, in numeric
  order: the serialisation then does not have the names in sorted order.\<close>

lemma index_names_come_first:
  "sort [''b'', ''10'', ''9''] = [''10'', ''9'', ''b'']
   \<and> own_properties (sortedParams [(''b'', PNumber 1), (''10'', PNumber 2), (''9'', PNumber 3)])
       = [(''9'', PNumber 3), (''10'', PNumber 2), (''b'', PNumber 1)]"
proof -
  have s: "sort [''b'', ''10'', ''9''] = [''10'', ''9'', ''b'']"
    by code_simp
  have "sortedParams [(''b'', PNumber 1), (''10'', PNumber 2), (''9'', PNumber 3)]
          = [(''10'', PNumber 2), (''9'', PNumber 3), (''b'', PNumber 1)]"
    using s by (subst sortedParams_eq) (simp_all add: get_prop_def)
  then show ?thesis
    using s by (simp add: own_properties_def is_array_index_def is_digit_def index_value_def
        Number_digit_def)
qed

text \<open>
  Claim C7. Two parameter objects that hold the same name/value pairs, in whatever
  order the fields were added, get the same cache key for every endpoint tag. The
  object the key serialises holds exactly the parameters with their values (when none
  is named \<^verbatim>\<open>__proto__\<close>), and when no name is an array index the key is the prefix, the
  endpoint tag and the JSON text of the parameters listed by name in sorted order, each
  with its value.
\<close>

theorem C7_cache_key_deterministic:
  "(distinct (map fst p1) \<and> distinct (map fst p2) \<and> set p1 = set p2 \<longrightarrow>
      createCacheKey endpoint p1 = createCacheKey endpoint p2)
   \<and> (distinct (map fst p1) \<and> ''__proto__'' \<notin> fst ` set p1 \<longrightarrow>
        map_of (sortedParams p1) = map_of p1)
   \<and> (distinct (map fst p1) \<and> ''__proto__'' \<notin> fst ` set p1
        \<and> (\<forall>k \<in> fst ` set p1. \<not> is_array_index k) \<longrightarrow>
        createCacheKey endpoint p1 =
          KEY_PREFIX @ '':'' @ endpoint @ '':''
            @ JSON_object (map (\<lambda>k. (k, get_prop p1 k)) (sort (map fst p1))))"
proof (intro impI conjI)
  assume "distinct (map fst p1) \<and> distinct (map fst p2) \<and> set p1 = set p2"
  then have "sortedParams p1 = sortedParams p2"
    using same_fields_same_object [of p1 p2] by blast
  then show "createCacheKey endpoint p1 = createCacheKey endpoint p2"
    by (simp add: createCacheKey_def)
next
  assume "distinct (map fst p1) \<and> ''__proto__'' \<notin> fst ` set p1"
  then show "map_of (sortedParams p1) = map_of p1"
    using sortedParams_holds_the_parameters [of p1] by blast
next
  assume "distinct (map fst p1) \<and> ''__proto__'' \<notin> fst ` set p1
        \<and> (\<forall>k \<in> fst ` set p1. \<not> is_array_index k)"
  then show "createCacheKey endpoint p1 =
          KEY_PREFIX @ '':'' @ endpoint @ '':''
            @ JSON_object (map (\<lambda>k. (k, get_prop p1 k)) (sort (map fst p1)))"
    using createCacheKey_plain [of p1 endpoint] by blast
qed

lemma sorted_example: "sort [''Query'', ''MaxResults''] = [''MaxResults'', ''Query'']"
  by code_simp

lemma plain_names: "\<not> is_array_index ''Query''" "\<not> is_array_index ''MaxResults''"
  by (simp_all add: is_array_index_def is_digit_def)

theorem C7_cache_key_witness:
  "createCacheKey ''search'' [(''Query'', PString ''clean code''), (''MaxResults'', PNumber 10)]
     = createCacheKey ''search'' [(''MaxResults'', PNumber 10), (''Query'', PString ''clean code'')]
   \<and> map_of (sortedParams [(''Query'', PString ''clean code''), (''MaxResults'', PNumber 10)])
       = [''Query'' \<mapsto> PString ''clean code'', ''MaxResults'' \<mapsto> PNumber 10]
   \<and> createCacheKey ''search'' [(''Query'', PString ''clean code''), (''MaxResults'', PNumber 10)]
       = ''aladin_mcp:search:''
           @ JSON_object [(''MaxResults'', PNumber 10), (''Query'', PString ''clean code'')]"
  using C7_cache_key_deterministic
    [of "[(''Query'', PString ''clean code''), (''MaxResults'', PNumber 10)]"
        "[(''MaxResults'', PNumber 10), (''Query'', PString ''clean code'')]" "''search''"]
    sorted_example plain_names
  by (auto simp: get_prop_def KEY_PREFIX_def)

section \<open>Properties of the burst limit\<close>















section \<open>Properties of item normalisation\<close>

lemma to_text_idem: "to_text (to_text v) = to_text v"
  by (cases v) (auto simp: to_text_def or_default_def)

lemma to_number_idem: "parses p v \<Longrightarrow> to_number p (to_number p v) = to_number p v"
  by (cases v) (auto simp: to_number_def or_default_def parses_def)

lemma to_number_type: "numeric_input v \<Longrightarrow> is_number (to_number p v)"
  by (cases v) (auto simp: to_number_def or_default_def numeric_input_def)

lemma to_text_type: "text_input v \<Longrightarrow> is_string (to_text v)"
  by (cases v) (auto simp: to_text_def or_default_def text_input_def)

lemma to_number_default: "default_of (JNumber (Finite 0)) v (to_number p v)"
  by (cases v) (auto simp: to_number_def or_default_def default_of_def)

lemma to_text_default: "default_of (JString []) v (to_text v)"
  by (cases v) (auto simp: to_text_def or_default_def default_of_def)

lemma normalize_idempotent:
  "numeric_fields_parse x \<Longrightarrow> normalizeBookItem (normalizeBookItem x) = normalizeBookItem x"
  by (simp add: normalizeBookItem_def numeric_fields_parse_def to_text_idem to_number_idem)

lemma normalize_canonical: "well_typed_item x \<Longrightarrow> canonical_item (normalizeBookItem x)"
  by (simp add: normalizeBookItem_def well_typed_item_def canonical_item_def to_number_type
      to_text_type)

lemma normalize_defaults: "defaults_applied x (normalizeBookItem x)"
  by (simp add: normalizeBookItem_def defaults_applied_def to_number_default to_text_default)

lemma normalize_passes_through:
  "subInfo (normalizeBookItem x) = subInfo x \<and> bestDuration (normalizeBookItem x) = bestDuration x
   \<and> bestRank (normalizeBookItem x) = bestRank x \<and> others (normalizeBookItem x) = others x"
  by (simp add: normalizeBookItem_def)
lemma parseInt_not_a_number: "parseInt ''N/A'' = NaN"
  by (simp add: parseInt_def read_sign_def is_ws_def digit_in_radix_def is_digit_def Let_def)

lemma parseInt_price: "parseInt ''29700'' = Finite 29700"
  by (simp add: parseInt_def read_sign_def is_ws_def digit_in_radix_def is_digit_def Let_def
      numeral_value_def)

text \<open>
  Claim C10, as the code has it. \<^verbatim>\<open>normalizeBookItem\<close> is idempotent on every item none
  of whose seven numeric fields is a string that \<^verbatim>\<open>parseInt\<close> (\<^verbatim>\<open>parseFloat\<close> for
  \<^verbatim>\<open>customerReviewRank\<close>) turns into \<^verbatim>\<open>NaN\<close>. After one application to an item whose
  fields arrive with the types the upstream sends (numbers or numeric strings, strings,
  or nothing), the seven numeric fields are numbers, the twelve text fields are strings
  and \<^verbatim>\<open>adult\<close> and \<^verbatim>\<open>fixedPrice\<close> are booleans; an absent field holds 0 or the empty
  string; \<^verbatim>\<open>subInfo\<close> is passed through unchanged.
\<close>

theorem C10_normalize_idempotent_when_parsed:
  "(numeric_fields_parse x \<longrightarrow> normalizeBookItem (normalizeBookItem x) = normalizeBookItem x)
   \<and> (well_typed_item x \<longrightarrow> canonical_item (normalizeBookItem x))
   \<and> defaults_applied x (normalizeBookItem x)
   \<and> subInfo (normalizeBookItem x) = subInfo x"
  using normalize_idempotent [of x] normalize_canonical [of x] normalize_defaults [of x]
    normalize_passes_through [of x]
  by blast

theorem C10_normalize_witness:
  "normalizeBookItem (normalizeBookItem item_priced) = normalizeBookItem item_priced
   \<and> canonical_item (normalizeBookItem item_priced)
   \<and> priceSales (normalizeBookItem item_priced) = JNumber (Finite 29700)
   \<and> author (normalizeBookItem item_priced) = JString []"
proof -
  have p: "numeric_fields_parse item_priced"
    by (simp add: numeric_fields_parse_def item_priced_def item_blank_def)
      (simp add: parses_def parseInt_price)
  have w: "well_typed_item item_priced"
    by (simp add: well_typed_item_def item_priced_def item_blank_def numeric_input_def
        text_input_def)
  have v: "priceSales (normalizeBookItem item_priced) = JNumber (Finite 29700)
     \<and> author (normalizeBookItem item_priced) = JString []"
    by (simp add: normalizeBookItem_def item_priced_def item_blank_def to_number_def to_text_def
        or_default_def parseInt_price)
  from C10_normalize_idempotent_when_parsed [of item_priced] p w v show ?thesis
    by blast
qed

text \<open>The claim as stated has every item. A price that is not a numeral becomes
  \<^verbatim>\<open>NaN\<close> in the first pass, and the second pass, which sees a falsy number, makes it 0.\<close>

theorem C10_idempotence_counterexample:
  "normalizeBookItem (normalizeBookItem item_unpriced) \<noteq> normalizeBookItem item_unpriced"
proof -
  have a: "priceSales (normalizeBookItem item_unpriced) = JNumber NaN"
    by (simp add: normalizeBookItem_def item_unpriced_def to_number_def parseInt_not_a_number)
  have "priceSales (normalizeBookItem (normalizeBookItem item_unpriced))
        = to_number parseInt (priceSales (normalizeBookItem item_unpriced))"
    by (simp add: normalizeBookItem_def)
  then have b: "priceSales (normalizeBookItem (normalizeBookItem item_unpriced)) = JNumber (Finite 0)"
    unfolding a by (simp add: to_number_def or_default_def)
  from a b show ?thesis by auto
qed

section \<open>Properties of the pipeline: invalid parameters\<close>

lemma invalid_search: "validateSearchParams [(''Query'', PString [])] =
    \<lparr>isValid = False, errors = [''search keyword is required'']\<rparr>"
  by (simp add: validateSearchParams_def get_prop_def range_errors_def Let_def)

lemma invalid_lookup: "validateLookupParams [] =
    \<lparr>isValid = False, errors = [''one of ItemId, ISBN, ISBN13 is required'']\<rparr>"
  by (simp add: validateLookupParams_def get_prop_def Let_def)

lemma wrapped_validation_error:
  "handleApiError now (handleValidationError now v) =
     StandardError SYSTEM_ERROR (''API_CALL: '' @ join_comma (errors v))
       (OriginalError (StandardError INVALID_PARAM_VALUE (join_comma (errors v)) NoOriginal now)) now"
  by (simp add: handleApiError_def handleValidationError_def handleGenericError_def
      createStandardError_def logged_def logStructuredError_def)

lemma catch_validation_error:
  "catch_block (handleValidationError (clock w) v) w =
     (handleApiError (clock w) (handleValidationError (clock w) v), recordApiUsage False w)"
  by (simp add: catch_block_def wrapped_validation_error logApiCallEnd_def Let_def)

lemma searchBooks_invalid:
  "\<not> isValid (validateSearchParams ps) \<Longrightarrow>
   searchBooks up random ps w =
     (Inl (handleApiError (clock w) (handleValidationError (clock w) (validateSearchParams ps))),
      recordApiUsage False w)"
  by (simp add: searchBooks_def catch_validation_error Let_def)

lemma getBookDetails_invalid:
  "\<not> isValid (validateLookupParams ps) \<Longrightarrow>
   getBookDetails up random ps w =
     (Inl (handleApiError (clock w) (handleValidationError (clock w) (validateLookupParams ps))),
      recordApiUsage False w)"
  by (simp add: getBookDetails_def catch_validation_error Let_def)

lemma recordApiUsage_fields:
  "cache (recordApiUsage s w) = cache w" "breakerState (recordApiUsage s w) = breakerState w"
  "httpCalls (recordApiUsage s w) = httpCalls w" "clock (recordApiUsage s w) = clock w"
  "clientTtbKey (recordApiUsage s w) = clientTtbKey w"
  "rateLimiter (recordApiUsage s w) = recordApiCall (clock w) (clientTtbKey w) s (rateLimiter w)"
  by (simp_all add: recordApiUsage_def)

text \<open>
  Claim C3, at inputs where the code departs from it. A search with an empty query and
  a lookup with no identifier fail validation. No request is issued and the cache and
  the circuit breaker are left as they are; but the validation error is thrown inside
  the \<^verbatim>\<open>try\<close> block, whose \<^verbatim>\<open>catch\<close> wraps it through
  \<^verbatim>\<open>handleGenericError(error, 'API_CALL')\<close> into a \<^verbatim>\<open>SYSTEM_ERROR\<close> (900) that holds the
  \<^verbatim>\<open>INVALID_PARAM_VALUE\<close> (300) error as its original, and records a failed API call:
  the daily count of the key grows by 1 and the request history gains the instant.
\<close>

theorem C3_invalid_call_is_recorded_and_wrapped:
  "searchBooks up random [(''Query'', PString [])] w =
     (Inl (StandardError SYSTEM_ERROR ''API_CALL: search keyword is required''
             (OriginalError (StandardError INVALID_PARAM_VALUE ''search keyword is required''
                NoOriginal (clock w)))
             (clock w)),
      recordApiUsage False w)
   \<and> getBookDetails up random [] w =
     (Inl (StandardError SYSTEM_ERROR ''API_CALL: one of ItemId, ISBN, ISBN13 is required''
             (OriginalError (StandardError INVALID_PARAM_VALUE
                ''one of ItemId, ISBN, ISBN13 is required'' NoOriginal (clock w)))
             (clock w)),
      recordApiUsage False w)
   \<and> dailyCount_of (clientTtbKey w) (rateLimiter (recordApiUsage False w))
       = dailyCount_of (clientTtbKey w) (rateLimiter w) + 1
   \<and> requestHistory_of (clientTtbKey w) (rateLimiter (recordApiUsage False w))
       = filter (\<lambda>t. clock w - t \<le> 60000) (requestHistory_of (clientTtbKey w) (rateLimiter w) @ [clock w])
   \<and> cache (recordApiUsage False w) = cache w
   \<and> breakerState (recordApiUsage False w) = breakerState w
   \<and> httpCalls (recordApiUsage False w) = httpCalls w"
proof -
  have s: "searchBooks up random [(''Query'', PString [])] w =
     (Inl (StandardError SYSTEM_ERROR ''API_CALL: search keyword is required''
             (OriginalError (StandardError INVALID_PARAM_VALUE ''search keyword is required''
                NoOriginal (clock w)))
             (clock w)),
      recordApiUsage False w)"
    by (subst searchBooks_invalid) (simp_all add: invalid_search wrapped_validation_error)
  have l: "getBookDetails up random [] w =
     (Inl (StandardError SYSTEM_ERROR ''API_CALL: one of ItemId, ISBN, ISBN13 is required''
             (OriginalError (StandardError INVALID_PARAM_VALUE
                ''one of ItemId, ISBN, ISBN13 is required'' NoOriginal (clock w)))
             (clock w)),
      recordApiUsage False w)"
    by (subst getBookDetails_invalid) (simp_all add: invalid_lookup wrapped_validation_error)
  show ?thesis
    unfolding s l
    by (simp add: recordApiUsage_fields recordApiCall_dailyCount recordApiCall_requestHistory)
qed

section \<open>Properties of the pipeline: cache hits\<close>

lemma searchBooks_hit:
  assumes "isValid (validateSearchParams ps)"
    and "map_of (cache w) (createCacheKey ''search'' ps) = Some entry"
    and "clock w - timestamp entry \<le> ttl entry" and "data entry = Some d"
  shows "searchBooks up random ps w = (Inr d, w)"
  using assms by (simp add: searchBooks_def getFromCache_def Let_def)

lemma getBookDetails_hit:
  assumes "isValid (validateLookupParams ps)"
    and "map_of (cache w) (createCacheKey ''lookup'' ps) = Some entry"
    and "clock w - timestamp entry \<le> ttl entry" and "data entry = Some d"
  shows "getBookDetails up random ps w = (Inr (Some d), w)"
  using assms by (simp add: getBookDetails_def getFromCache_def Let_def)

lemma getBookDetails_miss:
  assumes "isValid (validateLookupParams ps)"
    and "getFromCache (clock w) (createCacheKey ''lookup'' ps) (cache w) = (None, c1)"
    and "checkApiRateLimit (w\<lparr>cache := c1\<rparr>) = (None, w2)"
    and "checkCircuitBreaker (clock w2) (breakerState w2) = Inr b"
    and "axios_get up ITEM_LOOKUP ps (w2\<lparr>breakerState := b\<rparr>) = (Inr response, w4)"
  shows "getBookDetails up random ps w =
     (Inr (case item (normalizeLookupResponse response) of Some (x # xs) \<Rightarrow> Some (PItem x) | _ \<Rightarrow> None),
      recordApiUsage True
        (w4\<lparr>cache := setCache (clock w4) (createCacheKey ''lookup'' ps)
                         (case item (normalizeLookupResponse response) of
                            Some (x # xs) \<Rightarrow> Some (PItem x) | _ \<Rightarrow> None)
                         LOOKUP_TTL (cache w4)\<rparr>))"
  using assms by (simp add: getBookDetails_def Let_def retry_axios_once)

lemma searchBooks_miss:
  assumes "isValid (validateSearchParams ps)"
    and "getFromCache (clock w) (createCacheKey ''search'' ps) (cache w) = (None, c1)"
    and "checkApiRateLimit (w\<lparr>cache := c1\<rparr>) = (None, w2)"
    and "checkCircuitBreaker (clock w2) (breakerState w2) = Inr b"
    and "axios_get up ITEM_SEARCH ps (w2\<lparr>breakerState := b\<rparr>) = (Inr response, w4)"
  shows "searchBooks up random ps w =
     (Inr (PResponse (normalizeSearchResponse response)),
      recordApiUsage True
        (w4\<lparr>cache := setCache (clock w4) (createCacheKey ''search'' ps)
                         (Some (PResponse (normalizeSearchResponse response)))
                         SEARCH_TTL (cache w4)\<rparr>))"
  using assms by (simp add: searchBooks_def Let_def retry_axios_once)

lemma getDate_small: "getDate 0 0 = 1" "getDate 0 1500 = 1" "getDate 0 1520 = 1"
  by code_simp+

lemma lookup_params_valid: "isValid (validateLookupParams lookup_params)"
  by (simp add: validateLookupParams_def lookup_params_def get_prop_def Let_def)

lemma first_rate_check:
  "checkApiRateLimit (world_ready\<lparr>cache := []\<rparr>) =
     (None, world_ready\<lparr>rateLimiter :=
        (rateLimiter world_ready)\<lparr>rateLimitStates :=
           [(''ttbexample.key'',
             \<lparr>isBlocked = False, nextAllowedTime = 0, currentDelay = 200, burstCount = 1,
              lastBurstReset = 1000\<rparr>)]\<rparr>\<rparr>)"
  by (simp add: checkApiRateLimit_def checkRateLimit_def getTtbKeyUsage_def getRateLimitState_def
      checkDailyLimit_def validateTtbKey_def checkRequestFrequency_def checkBurstLimit_def
      put_usage_def put_state_def world_ready_def getDate_small Let_def
      TTB_VALIDATION_INTERVAL_def BURST_WINDOW_def BURST_LIMIT_def)

lemma second_rate_check:
  "checkApiRateLimit world_after_lookup =
     (None, world_after_lookup\<lparr>rateLimiter :=
        (rateLimiter world_after_lookup)\<lparr>rateLimitStates :=
           [(''ttbexample.key'',
             \<lparr>isBlocked = False, nextAllowedTime = 0, currentDelay = 200, burstCount = 2,
              lastBurstReset = 1000\<rparr>)]\<rparr>\<rparr>)"
  by (simp add: checkApiRateLimit_def checkRateLimit_def getTtbKeyUsage_def getRateLimitState_def
      checkDailyLimit_def validateTtbKey_def checkRequestFrequency_def checkBurstLimit_def
      put_usage_def put_state_def world_after_lookup_def getDate_small Let_def
      TTB_VALIDATION_INTERVAL_def BURST_WINDOW_def BURST_LIMIT_def)

lemma closed_breaker_passes:
  "checkCircuitBreaker now \<lparr>circuitBreakerFailures = 0, circuitBreakerLastFailure = None\<rparr>
     = Inr \<lparr>circuitBreakerFailures = 0, circuitBreakerLastFailure = None\<rparr>"
  by (simp add: checkCircuitBreaker_def CIRCUIT_BREAKER_THRESHOLD_def)

lemma first_lookup:
  "getBookDetails upstream_no_such_book random lookup_params world_ready = (Inr None, world_after_lookup)"
proof -
  let ?w2 = "world_ready\<lparr>rateLimiter :=
        (rateLimiter world_ready)\<lparr>rateLimitStates :=
           [(''ttbexample.key'',
             \<lparr>isBlocked = False, nextAllowedTime = 0, currentDelay = 200, burstCount = 1,
              lastBurstReset = 1000\<rparr>)]\<rparr>\<rparr>"
  let ?b = "\<lparr>circuitBreakerFailures = 0, circuitBreakerLastFailure = None\<rparr>"
  let ?w4 = "?w2\<lparr>httpCalls := 1, clock := 1520\<rparr>"
  have g: "getFromCache (clock world_ready) (createCacheKey ''lookup'' lookup_params) (cache world_ready)
           = (None, [])"
    by (simp add: getFromCache_def world_ready_def)
  have b: "checkCircuitBreaker (clock ?w2) (breakerState ?w2) = Inr ?b"
    using closed_breaker_passes by (simp add: world_ready_def)
  have x: "axios_get upstream_no_such_book ITEM_LOOKUP lookup_params (?w2\<lparr>breakerState := ?b\<rparr>)
           = (Inr \<lparr>item = Some [], rest = []\<rparr>, ?w4)"
    by (simp add: axios_get_def upstream_no_such_book_def world_ready_def Let_def
        onResponseSuccess_def)
  show ?thesis
    unfolding getBookDetails_miss [OF lookup_params_valid g first_rate_check b x]
    by (simp add: world_ready_def world_after_lookup_def normalizeLookupResponse_def
        recordApiUsage_def recordApiCall_def getTtbKeyUsage_def put_usage_def setCache_def
        MAX_CACHE_SIZE_def Let_def)
qed

lemma cached_null_is_a_miss:
  "map_of (cache world_after_lookup) (createCacheKey ''lookup'' lookup_params)
     = Some \<lparr>data = None, timestamp = 1520, ttl = LOOKUP_TTL\<rparr>
   \<and> getFromCache (clock world_after_lookup) (createCacheKey ''lookup'' lookup_params)
         (cache world_after_lookup)
       = (None, cache world_after_lookup)"
  by (simp add: getFromCache_def world_after_lookup_def LOOKUP_TTL_def)

lemma second_lookup:
  "fst (getBookDetails upstream_no_such_book random lookup_params world_after_lookup) = Inr None
   \<and> httpCalls (snd (getBookDetails upstream_no_such_book random lookup_params world_after_lookup)) = 2
   \<and> dailyCount_of ''ttbexample.key''
        (rateLimiter (snd (getBookDetails upstream_no_such_book random lookup_params world_after_lookup))) = 2"
proof -
  let ?w2 = "world_after_lookup\<lparr>rateLimiter :=
        (rateLimiter world_after_lookup)\<lparr>rateLimitStates :=
           [(''ttbexample.key'',
             \<lparr>isBlocked = False, nextAllowedTime = 0, currentDelay = 200, burstCount = 2,
              lastBurstReset = 1000\<rparr>)]\<rparr>\<rparr>"
  let ?b = "\<lparr>circuitBreakerFailures = 0, circuitBreakerLastFailure = None\<rparr>"
  let ?w4 = "?w2\<lparr>httpCalls := 2, clock := 1540\<rparr>"
  have g: "getFromCache (clock world_after_lookup) (createCacheKey ''lookup'' lookup_params)
         (cache world_after_lookup) = (None, cache world_after_lookup)"
    using cached_null_is_a_miss by simp
  have r: "checkApiRateLimit (world_after_lookup\<lparr>cache := cache world_after_lookup\<rparr>) = (None, ?w2)"
    using second_rate_check by simp
  have b: "checkCircuitBreaker (clock ?w2) (breakerState ?w2) = Inr ?b"
    using closed_breaker_passes by (simp add: world_after_lookup_def)
  have x: "axios_get upstream_no_such_book ITEM_LOOKUP lookup_params (?w2\<lparr>breakerState := ?b\<rparr>)
           = (Inr \<lparr>item = Some [], rest = []\<rparr>, ?w4)"
    by (simp add: axios_get_def upstream_no_such_book_def world_after_lookup_def Let_def
        onResponseSuccess_def)
  show ?thesis
    unfolding getBookDetails_miss [OF lookup_params_valid g r b x]
    by (simp add: world_after_lookup_def normalizeLookupResponse_def
        recordApiUsage_def recordApiCall_def getTtbKeyUsage_def put_usage_def
        Let_def dailyCount_of_def)
qed

lemma checkApiRateLimit_fields:
  "checkApiRateLimit w = (e, w2) \<Longrightarrow>
   httpCalls w2 = httpCalls w \<and> cache w2 = cache w \<and> breakerState w2 = breakerState w"
  by (auto simp: checkApiRateLimit_def Let_def split: prod.splits)

lemma searchBooks_success_is_cached:
  assumes ok: "searchBooks up random ps w0 = (Inr d, w1)"
  shows "isValid (validateSearchParams ps)
     \<and> (\<exists>entry. map_of (cache w1) (createCacheKey ''search'' ps) = Some entry
           \<and> data entry = Some d \<and> clock w1 - timestamp entry \<le> ttl entry)
     \<and> httpCalls w1 \<le> httpCalls w0 + 1"
proof -
  have v: "isValid (validateSearchParams ps)"
    using ok by (cases "isValid (validateSearchParams ps)") (simp_all add: searchBooks_invalid)
  obtain cached c1 where g: "getFromCache (clock w0) (createCacheKey ''search'' ps) (cache w0) = (cached, c1)"
    by (cases "getFromCache (clock w0) (createCacheKey ''search'' ps) (cache w0)") auto
  show ?thesis
  proof (cases cached)
    case (Some d')
    with ok v g have "d' = d" "w1 = w0\<lparr>cache := c1\<rparr>"
      by (simp_all add: searchBooks_def Let_def)
    moreover from g Some obtain entry where
      "map_of (cache w0) (createCacheKey ''search'' ps) = Some entry" "c1 = cache w0"
      "data entry = Some d'" "clock w0 - timestamp entry \<le> ttl entry"
      by (auto simp: getFromCache_def split: option.splits if_splits)
    ultimately show ?thesis using v by auto
  next
    case None
    obtain e2 w2 where r: "checkApiRateLimit (w0\<lparr>cache := c1\<rparr>) = (e2, w2)"
      by (cases "checkApiRateLimit (w0\<lparr>cache := c1\<rparr>)") auto
    from r have f2: "httpCalls w2 = httpCalls w0"
      using checkApiRateLimit_fields [OF r] by simp
    from ok v g None r obtain b response w4 where
      e2: "e2 = None" and b: "checkCircuitBreaker (clock w2) (breakerState w2) = Inr b"
      and x: "axios_get up ITEM_SEARCH ps (w2\<lparr>breakerState := b\<rparr>) = (Inr response, w4)"
      by (auto simp: searchBooks_def Let_def retry_axios_once
          split: option.splits sum.splits prod.splits)
    from searchBooks_miss [OF v g [unfolded None] r [unfolded e2] b x] ok
    have d: "d = PResponse (normalizeSearchResponse response)"
      and w1: "w1 = recordApiUsage True
        (w4\<lparr>cache := setCache (clock w4) (createCacheKey ''search'' ps)
                         (Some (PResponse (normalizeSearchResponse response)))
                         SEARCH_TTL (cache w4)\<rparr>)"
      by auto
    have h: "httpCalls w4 = httpCalls w0 + 1"
      using axios_get_counts [of up ITEM_SEARCH ps "w2\<lparr>breakerState := b\<rparr>"] x f2 by simp
    show ?thesis
      using v h unfolding w1 d
      by (simp add: recordApiUsage_def map_of_setCache SEARCH_TTL_def)
  qed
qed

lemma searchBooks_twice:
  assumes ok: "searchBooks up random ps w0 = (Inr d, w1)"
  shows "\<exists>entry. map_of (cache w1) (createCacheKey ''search'' ps) = Some entry
           \<and> (\<forall>t2. t2 - timestamp entry \<le> ttl entry \<longrightarrow>
                 searchBooks up2 random2 ps (w1\<lparr>clock := t2\<rparr>) = (Inr d, w1\<lparr>clock := t2\<rparr>))"
proof -
  from searchBooks_success_is_cached [OF ok] obtain entry where
    v: "isValid (validateSearchParams ps)"
    and m: "map_of (cache w1) (createCacheKey ''search'' ps) = Some entry"
    and dd: "data entry = Some d" by blast
  have "searchBooks up2 random2 ps (w1\<lparr>clock := t2\<rparr>) = (Inr d, w1\<lparr>clock := t2\<rparr>)"
    if "t2 - timestamp entry \<le> ttl entry" for t2
    using searchBooks_hit [of ps "w1\<lparr>clock := t2\<rparr>" entry d up2 random2] v m dd that by simp
  then show ?thesis using m by blast
qed

text \<open>
  Claim C6, at an input where the code departs from it. For a live entry that holds a
  value the methods return it at once and touch nothing (\<open>searchBooks_hit\<close>,
  \<open>getBookDetails_hit\<close>), and a search that succeeded is answered from the cache, with
  no further request, for as long as its entry lives (\<open>searchBooks_success_is_cached\<close>,
  \<open>searchBooks_twice\<close>). The lookup method, however, caches \<^verbatim>\<open>null\<close> when the upstream
  has no such book, and its test \<^verbatim>\<open>if (cached)\<close> reads that live entry as a miss: of
  two consecutive identical lookups the second passes the quota check and the circuit
  breaker again and sends a second request, and a second call is recorded.
\<close>

theorem C6_cached_null_lookup_is_fetched_again:
  "getBookDetails upstream_no_such_book random lookup_params world_ready
     = (Inr None, world_after_lookup)
   \<and> httpCalls world_after_lookup = 1
   \<and> map_of (cache world_after_lookup) (createCacheKey ''lookup'' lookup_params)
       = Some \<lparr>data = None, timestamp = 1520, ttl = LOOKUP_TTL\<rparr>
   \<and> clock world_after_lookup - 1520 < LOOKUP_TTL
   \<and> fst (getBookDetails upstream_no_such_book random lookup_params world_after_lookup) = Inr None
   \<and> httpCalls (snd (getBookDetails upstream_no_such_book random lookup_params world_after_lookup))
       = 2
   \<and> dailyCount_of ''ttbexample.key''
        (rateLimiter (snd (getBookDetails upstream_no_such_book random lookup_params
                             world_after_lookup))) = 2"
proof -
  have "httpCalls world_after_lookup = 1" "clock world_after_lookup - 1520 < LOOKUP_TTL"
    by (simp_all add: world_after_lookup_def LOOKUP_TTL_def)
  then show ?thesis
    using first_lookup [of random] cached_null_is_a_miss second_lookup [of random] by blast
qed

section \<open>Properties of the pipeline: retries\<close>

lemma catch_block_fields:
  "httpCalls (snd (catch_block e w)) = httpCalls w" "cache (snd (catch_block e w)) = cache w"
  "breakerState (snd (catch_block e w)) = breakerState w"
  by (simp_all add: catch_block_def Let_def recordApiUsage_fields split: option.splits)

lemma searchBooks_at_most_one_request:
  "httpCalls (snd (searchBooks up random ps w)) \<le> httpCalls w + 1"
proof (cases "isValid (validateSearchParams ps)")
  case False
  then show ?thesis by (simp add: searchBooks_invalid recordApiUsage_fields)
next
  case v: True
  obtain cached c1 where g: "getFromCache (clock w) (createCacheKey ''search'' ps) (cache w) = (cached, c1)"
    by (cases "getFromCache (clock w) (createCacheKey ''search'' ps) (cache w)") auto
  show ?thesis
  proof (cases cached)
    case (Some d)
    then show ?thesis using v g by (simp add: searchBooks_def Let_def)
  next
    case None
    obtain e2 w2 where r: "checkApiRateLimit (w\<lparr>cache := c1\<rparr>) = (e2, w2)"
      by (cases "checkApiRateLimit (w\<lparr>cache := c1\<rparr>)") auto
    have f2: "httpCalls w2 = httpCalls w"
      using checkApiRateLimit_fields [OF r] by simp
    show ?thesis
    proof (cases e2)
      case (Some e)
      then show ?thesis
        using v g None r f2 catch_block_fields(1) [of e w2]
        by (simp add: searchBooks_def Let_def case_prod_beta)
    next
      case n2: None
      show ?thesis
      proof (cases "checkCircuitBreaker (clock w2) (breakerState w2)")
        case (Inl e)
        then show ?thesis
          using v g None r n2 f2 catch_block_fields(1) [of e w2]
          by (simp add: searchBooks_def Let_def case_prod_beta)
      next
        case (Inr b)
        obtain res w4 where x: "axios_get up ITEM_SEARCH ps (w2\<lparr>breakerState := b\<rparr>) = (res, w4)"
          by (cases "axios_get up ITEM_SEARCH ps (w2\<lparr>breakerState := b\<rparr>)") auto
        have h: "httpCalls w4 = httpCalls w + 1"
          using axios_get_counts [of up ITEM_SEARCH ps "w2\<lparr>breakerState := b\<rparr>"] x f2 by simp
        show ?thesis
        proof (cases res)
          case (Inl e)
          then show ?thesis
            using v g None r n2 Inr x h catch_block_fields(1) [of e w4]
            by (simp add: searchBooks_def Let_def retry_axios_once case_prod_beta)
        next
          case r2: (Inr response)
          then show ?thesis
            using v g None r n2 Inr x h
            by (simp add: searchBooks_def Let_def retry_axios_once recordApiUsage_fields)
        qed
      qed
    qed
  qed
qed

lemma search_params_valid: "isValid (validateSearchParams search_params)"
  by (simp add: validateSearchParams_def search_params_def get_prop_def range_errors_def Let_def
      MAX_QUERY_LENGTH_def MIN_QUERY_LENGTH_def)

lemma failing_request:
  "axios_get upstream_always_500 endpoint ps w =
     (Inl (StandardError SYSTEM_ERROR ''network connection failed'' (OriginalError error_500)
             (clock w + 30)),
      w\<lparr>httpCalls := httpCalls w + 1, clock := clock w + 30,
        breakerState := handleCircuitBreaker (clock w + 30) (breakerState w)\<rparr>)"
  by (simp add: axios_get_def upstream_always_500_def Let_def error_500_def handleApiError_def
      handleNetworkError_def NETWORK_ERROR_MAPPING_def createStandardError_def)

lemma searchBooks_fails:
  assumes "isValid (validateSearchParams ps)"
    and "getFromCache (clock w) (createCacheKey ''search'' ps) (cache w) = (None, c1)"
    and "checkApiRateLimit (w\<lparr>cache := c1\<rparr>) = (None, w2)"
    and "checkCircuitBreaker (clock w2) (breakerState w2) = Inr b"
    and "axios_get up ITEM_SEARCH ps (w2\<lparr>breakerState := b\<rparr>) = (Inl e, w4)"
  shows "searchBooks up random ps w = (Inl (fst (catch_block e w4)), snd (catch_block e w4))"
  using assms by (simp add: searchBooks_def Let_def retry_axios_once case_prod_beta)

lemma failing_search:
  "isl (fst (searchBooks upstream_always_500 random search_params world_ready))
   \<and> httpCalls (snd (searchBooks upstream_always_500 random search_params world_ready)) = 1"
proof -
  let ?w2 = "world_ready\<lparr>rateLimiter :=
        (rateLimiter world_ready)\<lparr>rateLimitStates :=
           [(''ttbexample.key'',
             \<lparr>isBlocked = False, nextAllowedTime = 0, currentDelay = 200, burstCount = 1,
              lastBurstReset = 1000\<rparr>)]\<rparr>\<rparr>"
  let ?b = "\<lparr>circuitBreakerFailures = 0, circuitBreakerLastFailure = None\<rparr>"
  have g: "getFromCache (clock world_ready) (createCacheKey ''search'' search_params)
             (cache world_ready) = (None, [])"
    by (simp add: getFromCache_def world_ready_def)
  have b: "checkCircuitBreaker (clock ?w2) (breakerState ?w2) = Inr ?b"
    using closed_breaker_passes by (simp add: world_ready_def)
  have h: "httpCalls (?w2\<lparr>breakerState := ?b\<rparr>) = 0"
    by (simp add: world_ready_def)
  show ?thesis
    unfolding searchBooks_fails [OF search_params_valid g first_rate_check b failing_request]
    using h by (simp add: catch_block_fields world_ready_def)
qed

text \<open>
  Claim C1, at an input where the code departs from it. The loop itself would go
  through \<^verbatim>\<open>MAX_RETRIES + 1 = 4\<close> invocations of a request function that keeps
  rejecting with the Axios error of an HTTP 500, an error \<^verbatim>\<open>isRetryableError\<close> accepts,
  and gives up after one invocation on the Axios error of an HTTP 400.
  But the request function the client passes is \<^verbatim>\<open>() => this.axios.get(...)\<close>, whose
  rejections have passed the response interceptor and are no Axios errors any more:
  whatever the upstream answers, the loop invokes it once, and a search sends at most
  one HTTP request, counted by the transport (\<open>httpCalls\<close>). With an upstream that
  answers every request with HTTP 500, \<^verbatim>\<open>searchBooks\<close> fails after exactly one request,
  not four.
\<close>

theorem C1_interceptor_defeats_retry:
  "isRetryableError error_500
   \<and> snd (retryRequest (\<lambda>s. (Inl error_500, s)) random pause MAX_RETRIES s0) = MAX_RETRIES + 1
   \<and> MAX_RETRIES + 1 = 4
   \<and> \<not> isRetryableError error_400
   \<and> retryRequest (\<lambda>s. (Inl error_400, s)) random pause MAX_RETRIES s0 = ((Inl error_400, s0), 1)
   \<and> retryRequest (axios_get up endpoint ps) random pause MAX_RETRIES w
       = (axios_get up endpoint ps w, 1)
   \<and> httpCalls (snd (axios_get up endpoint ps w)) = httpCalls w + 1
   \<and> httpCalls (snd (searchBooks up random ps w)) \<le> httpCalls w + 1
   \<and> fst (axios_get upstream_always_500 ITEM_SEARCH search_params w)
       = Inl (StandardError SYSTEM_ERROR ''network connection failed'' (OriginalError error_500)
               (clock w + 30))
   \<and> isl (fst (searchBooks upstream_always_500 random search_params world_ready))
   \<and> httpCalls (snd (searchBooks upstream_always_500 random search_params world_ready)) = 1"
proof -
  have r: "isRetryableError error_500"
    by (simp add: isRetryableError_def error_500_def)
  have "\<exists>e s'. retryRequest (\<lambda>s. (Inl error_500, s)) random pause MAX_RETRIES s0
                  = ((Inl e, s'), MAX_RETRIES + 1) \<and> isRetryableError e"
    by (rule retry_always_failing) (simp add: r)
  then have l: "snd (retryRequest (\<lambda>s. (Inl error_500, s)) random pause MAX_RETRIES s0)
                  = MAX_RETRIES + 1"
    by (metis snd_conv)
  have m: "MAX_RETRIES + 1 = 4" by (simp add: MAX_RETRIES_def)
  have n: "\<not> isRetryableError error_400"
    by (simp add: isRetryableError_def error_400_def)
  have o: "retryRequest (\<lambda>s. (Inl error_400, s)) random pause MAX_RETRIES s0
             = ((Inl error_400, s0), 1)"
    using n by (intro retryRequest_gives_up) simp_all
  show ?thesis
    using r l m n o retry_axios_once [of up endpoint ps random pause MAX_RETRIES w]
      axios_get_counts [of up endpoint ps w] searchBooks_at_most_one_request [of up random ps w]
      failing_request [of ITEM_SEARCH search_params w] failing_search [of random]
    by simp
qed

section \<open>Properties of the circuit breaker\<close>

lemma failures_at_eq:
  "failures_at ts b =
     b\<lparr>circuitBreakerFailures := circuitBreakerFailures b + length ts,
       circuitBreakerLastFailure := (if ts = [] then circuitBreakerLastFailure b else Some (last ts))\<rparr>"
  unfolding failures_at_def
  by (induction ts arbitrary: b) (auto simp: handleCircuitBreaker_def)

lemma axios_get_success_resets:
  "axios_get up endpoint ps w = (Inr r, w') \<Longrightarrow> circuitBreakerFailures (breakerState w') = 0"
  by (auto simp: axios_get_def Let_def onResponseSuccess_def split: prod.splits sum.splits)

lemma axios_get_failure_notifies:
  "axios_get up endpoint ps w = (Inl e, w') \<Longrightarrow>
   breakerState w' = handleCircuitBreaker (clock w') (breakerState w)"
  by (auto simp: axios_get_def Let_def split: prod.splits sum.splits)

lemma searchBooks_blocked:
  assumes "isValid (validateSearchParams ps)"
    and "getFromCache (clock w) (createCacheKey ''search'' ps) (cache w) = (None, c1)"
    and "checkApiRateLimit (w\<lparr>cache := c1\<rparr>) = (None, w2)"
    and "circuitBreakerFailures (breakerState w) \<ge> CIRCUIT_BREAKER_THRESHOLD"
    and "circuitBreakerLastFailure (breakerState w) = Some t"
    and "clock w2 - t < CIRCUIT_BREAKER_TIMEOUT"
  shows "isl (fst (searchBooks up random ps w))
     \<and> httpCalls (snd (searchBooks up random ps w)) = httpCalls w
     \<and> breakerState (snd (searchBooks up random ps w)) = breakerState w"
proof -
  have f: "httpCalls w2 = httpCalls w" "breakerState w2 = breakerState w"
    using checkApiRateLimit_fields [OF assms(3)] by simp_all
  have c: "checkCircuitBreaker (clock w2) (breakerState w2) =
             Inl (createStandardError (clock w2) SYSTEM_ERROR
                    ''service temporarily blocked, try again later'' NoOriginal)"
    using assms(4-6) f by (simp add: checkCircuitBreaker_def)
  show ?thesis
    using assms(1-3) c f
    by (simp add: searchBooks_def Let_def case_prod_beta catch_block_fields)
qed

lemma open_rate_check:
  "checkApiRateLimit (world_open\<lparr>cache := []\<rparr>) =
     (None, world_open\<lparr>rateLimiter :=
        (rateLimiter world_ready)\<lparr>rateLimitStates :=
           [(''ttbexample.key'',
             \<lparr>isBlocked = False, nextAllowedTime = 0, currentDelay = 200, burstCount = 1,
              lastBurstReset = 1000\<rparr>)]\<rparr>\<rparr>)"
  by (simp add: checkApiRateLimit_def checkRateLimit_def getTtbKeyUsage_def getRateLimitState_def
      checkDailyLimit_def validateTtbKey_def checkRequestFrequency_def checkBurstLimit_def
      put_usage_def put_state_def world_open_def world_ready_def getDate_small Let_def
      TTB_VALIDATION_INTERVAL_def BURST_WINDOW_def BURST_LIMIT_def)

text \<open>
  Claim C2. After \<^verbatim>\<open>CIRCUIT_BREAKER_THRESHOLD = 5\<close> failure notifications in a row (at
  the instants \<open>ts\<close>, from any breaker state, with no success in between),
  \<^verbatim>\<open>checkCircuitBreaker\<close> throws at every instant less than
  \<^verbatim>\<open>CIRCUIT_BREAKER_TIMEOUT = 60000\<close> ms after the last failure; a throwing check leaves
  the state as it is, so this holds for every such check. At an instant 60000 ms or more
  after the last failure the check passes and sets the failure count to 0 and the time
  of the last failure to null. A successful response sets the failure count to 0: in
  the state a request leaves, whenever \<^verbatim>\<open>this.axios.get\<close> resolves, the count is 0, and
  whenever it rejects, the breaker has been notified of one more failure, at the
  instant of the rejection. A search that reaches the check while the breaker is open
  fails without sending a request and leaves the breaker as it is.
\<close>

theorem C2_breaker_open_until_timeout:
  "(length ts = CIRCUIT_BREAKER_THRESHOLD \<longrightarrow>
      (\<forall>now. now - last ts < CIRCUIT_BREAKER_TIMEOUT \<longrightarrow>
         checkCircuitBreaker now (failures_at ts b) =
           Inl (createStandardError now SYSTEM_ERROR
                  ''service temporarily blocked, try again later'' NoOriginal))
      \<and> (\<forall>now. now - last ts \<ge> CIRCUIT_BREAKER_TIMEOUT \<longrightarrow>
           checkCircuitBreaker now (failures_at ts b) =
             Inr ((failures_at ts b)\<lparr>circuitBreakerFailures := 0, circuitBreakerLastFailure := None\<rparr>)))
   \<and> CIRCUIT_BREAKER_THRESHOLD = 5 \<and> CIRCUIT_BREAKER_TIMEOUT = 60000
   \<and> circuitBreakerFailures (onResponseSuccess b) = 0
   \<and> (\<forall>r w'. axios_get up endpoint ps w = (Inr r, w') \<longrightarrow>
         circuitBreakerFailures (breakerState w') = 0)
   \<and> (\<forall>e w'. axios_get up endpoint ps w = (Inl e, w') \<longrightarrow>
         breakerState w' = handleCircuitBreaker (clock w') (breakerState w))
   \<and> (isValid (validateSearchParams ps)
        \<and> getFromCache (clock w) (createCacheKey ''search'' ps) (cache w) = (None, c1)
        \<and> checkApiRateLimit (w\<lparr>cache := c1\<rparr>) = (None, w2)
        \<and> circuitBreakerFailures (breakerState w) \<ge> CIRCUIT_BREAKER_THRESHOLD
        \<and> circuitBreakerLastFailure (breakerState w) = Some t
        \<and> clock w2 - t < CIRCUIT_BREAKER_TIMEOUT \<longrightarrow>
      isl (fst (searchBooks up random ps w))
      \<and> httpCalls (snd (searchBooks up random ps w)) = httpCalls w
      \<and> breakerState (snd (searchBooks up random ps w)) = breakerState w)"
proof -
  have "checkCircuitBreaker now (failures_at ts b) =
           Inl (createStandardError now SYSTEM_ERROR
                  ''service temporarily blocked, try again later'' NoOriginal)"
    if "length ts = CIRCUIT_BREAKER_THRESHOLD" "now - last ts < CIRCUIT_BREAKER_TIMEOUT" for now
    using that by (auto simp: failures_at_eq checkCircuitBreaker_def CIRCUIT_BREAKER_THRESHOLD_def)
  moreover have "checkCircuitBreaker now (failures_at ts b) =
             Inr ((failures_at ts b)\<lparr>circuitBreakerFailures := 0, circuitBreakerLastFailure := None\<rparr>)"
    if "length ts = CIRCUIT_BREAKER_THRESHOLD" "now - last ts \<ge> CIRCUIT_BREAKER_TIMEOUT" for now
    using that by (auto simp: failures_at_eq checkCircuitBreaker_def CIRCUIT_BREAKER_THRESHOLD_def)
  moreover have "CIRCUIT_BREAKER_THRESHOLD = 5" "CIRCUIT_BREAKER_TIMEOUT = 60000"
    "circuitBreakerFailures (onResponseSuccess b) = 0"
    by (simp_all add: CIRCUIT_BREAKER_THRESHOLD_def CIRCUIT_BREAKER_TIMEOUT_def onResponseSuccess_def)
  ultimately show ?thesis
    using axios_get_success_resets [of up endpoint ps w]
      axios_get_failure_notifies [of up endpoint ps w]
      searchBooks_blocked [of ps w c1 w2 t up random]
    by blast
qed

theorem C2_breaker_witness:
  "checkCircuitBreaker 59999
     (failures_at [0, 1, 2, 3, 4] \<lparr>circuitBreakerFailures = 0, circuitBreakerLastFailure = None\<rparr>)
     = Inl (StandardError SYSTEM_ERROR ''service temporarily blocked, try again later''
              NoOriginal 59999)
   \<and> checkCircuitBreaker 60004
       (failures_at [0, 1, 2, 3, 4] \<lparr>circuitBreakerFailures = 0, circuitBreakerLastFailure = None\<rparr>)
     = Inr \<lparr>circuitBreakerFailures = 0, circuitBreakerLastFailure = None\<rparr>
   \<and> circuitBreakerFailures (breakerState world_four_failures) = 4
   \<and> fst (axios_get upstream_no_such_book ITEM_SEARCH search_params world_four_failures)
       = Inr \<lparr>item = Some [], rest = []\<rparr>
   \<and> circuitBreakerFailures
        (breakerState (snd (axios_get upstream_no_such_book ITEM_SEARCH search_params
                              world_four_failures))) = 0
   \<and> breakerState (snd (axios_get upstream_always_500 ITEM_SEARCH search_params
                            world_four_failures))
       = \<lparr>circuitBreakerFailures = 5, circuitBreakerLastFailure = Some 1530\<rparr>
   \<and> isl (fst (searchBooks upstream_no_such_book (\<lambda>n. 0) search_params world_open))
   \<and> httpCalls (snd (searchBooks upstream_no_such_book (\<lambda>n. 0) search_params world_open)) = 0"
proof -
  let ?w2 = "world_open\<lparr>rateLimiter :=
        (rateLimiter world_ready)\<lparr>rateLimitStates :=
           [(''ttbexample.key'',
             \<lparr>isBlocked = False, nextAllowedTime = 0, currentDelay = 200, burstCount = 1,
              lastBurstReset = 1000\<rparr>)]\<rparr>\<rparr>"
  have ok: "axios_get upstream_no_such_book ITEM_SEARCH search_params world_four_failures
        = (Inr \<lparr>item = Some [], rest = []\<rparr>,
           snd (axios_get upstream_no_such_book ITEM_SEARCH search_params world_four_failures))"
    by (simp add: axios_get_def upstream_no_such_book_def Let_def)
  have ko: "axios_get upstream_always_500 ITEM_SEARCH search_params world_four_failures
        = (Inl (StandardError SYSTEM_ERROR ''network connection failed'' (OriginalError error_500)
                  1530),
           snd (axios_get upstream_always_500 ITEM_SEARCH search_params world_four_failures))"
    by (simp add: failing_request world_four_failures_def world_ready_def)
  have k: "clock (snd (axios_get upstream_always_500 ITEM_SEARCH search_params world_four_failures))
             = 1530"
    by (simp add: failing_request world_four_failures_def world_ready_def)
  have g: "getFromCache (clock world_open) (createCacheKey ''search'' search_params)
             (cache world_open) = (None, [])"
    by (simp add: getFromCache_def world_open_def world_ready_def)
  have o: "circuitBreakerFailures (breakerState world_open) = 5"
    "circuitBreakerLastFailure (breakerState world_open) = Some 1400"
    "clock ?w2 = 1500" "httpCalls world_open = 0"
    "breakerState world_four_failures
       = \<lparr>circuitBreakerFailures = 4, circuitBreakerLastFailure = Some 1400\<rparr>"
    by (simp_all add: world_open_def world_four_failures_def world_ready_def)
  have a: "checkCircuitBreaker 59999
     (failures_at [0, 1, 2, 3, 4] \<lparr>circuitBreakerFailures = 0, circuitBreakerLastFailure = None\<rparr>)
     = Inl (StandardError SYSTEM_ERROR ''service temporarily blocked, try again later''
              NoOriginal 59999)
   \<and> checkCircuitBreaker 60004
       (failures_at [0, 1, 2, 3, 4] \<lparr>circuitBreakerFailures = 0, circuitBreakerLastFailure = None\<rparr>)
     = Inr \<lparr>circuitBreakerFailures = 0, circuitBreakerLastFailure = None\<rparr>"
    using C2_breaker_open_until_timeout
      [of "[0, 1, 2, 3, 4]" "\<lparr>circuitBreakerFailures = 0, circuitBreakerLastFailure = None\<rparr>"]
    by (simp add: CIRCUIT_BREAKER_THRESHOLD_def CIRCUIT_BREAKER_TIMEOUT_def createStandardError_def
        failures_at_def handleCircuitBreaker_def)
  have s: "circuitBreakerFailures
        (breakerState (snd (axios_get upstream_no_such_book ITEM_SEARCH search_params
                              world_four_failures))) = 0"
    using C2_breaker_open_until_timeout
      [where up = upstream_no_such_book and endpoint = ITEM_SEARCH and ps = search_params
         and w = world_four_failures] ok
    by blast
  have f: "breakerState (snd (axios_get upstream_always_500 ITEM_SEARCH search_params
                            world_four_failures))
       = \<lparr>circuitBreakerFailures = 5, circuitBreakerLastFailure = Some 1530\<rparr>"
    using C2_breaker_open_until_timeout
      [where up = upstream_always_500 and endpoint = ITEM_SEARCH and ps = search_params
         and w = world_four_failures] ko k o(5)
    by (simp add: handleCircuitBreaker_def)
  have p: "isl (fst (searchBooks upstream_no_such_book (\<lambda>n. 0) search_params world_open))
   \<and> httpCalls (snd (searchBooks upstream_no_such_book (\<lambda>n. 0) search_params world_open)) = 0"
    using C2_breaker_open_until_timeout
      [where up = upstream_no_such_book and ps = search_params and w = world_open
         and ?c1.0 = "[]" and ?w2.0 = ?w2 and t = 1400 and random = "\<lambda>n. 0"]
      search_params_valid g open_rate_check o
    by (simp add: CIRCUIT_BREAKER_THRESHOLD_def CIRCUIT_BREAKER_TIMEOUT_def)
  have okf: "fst (axios_get upstream_no_such_book ITEM_SEARCH search_params world_four_failures)
        = Inr \<lparr>item = Some [], rest = []\<rparr>"
    by (simp add: axios_get_def upstream_no_such_book_def Let_def)
  show ?thesis using a s f p o(5) okf by simp
qed

end
